theory Spec2Isabelle
  imports Complex_Main
begin

section \<open>Python values and errors\<close>

text \<open>
  Every exception the modelled code can raise is a constructor of \<open>error\<close>; a function that
  can raise returns \<open>error + 'a\<close>, with \<open>Inl\<close> for the exception.
\<close>

datatype error =
    AssertionError
  | ValueError
  | KeyError
  | AttributeError
  | IndexError
  | UnboundLocalError
  | TypeError
  | LinAlgError

text \<open>
  A Python \<open>dict\<close> keeps insertion order: an association list with distinct keys.
  \<open>d[k]\<close> raises \<open>KeyError\<close> on a missing key; \<open>d[k] = v\<close> replaces in place or
  appends; \<open>d.update(e)\<close> stores the items of \<open>e\<close> in order; \<open>d.pop(k, default)\<close>
  removes the key and returns its value, or the default.
\<close>

type_synonym ('k, 'v) dict = "('k \<times> 'v) list"

definition getitem :: "('k, 'v) dict \<Rightarrow> 'k \<Rightarrow> error + 'v" where
  "getitem d k = (case map_of d k of None \<Rightarrow> Inl KeyError | Some v \<Rightarrow> Inr v)"

fun setitem :: "('k, 'v) dict \<Rightarrow> 'k \<Rightarrow> 'v \<Rightarrow> ('k, 'v) dict" where
  "setitem [] k v = [(k, v)]"
| "setitem ((k', v') # d) k v = (if k' = k then (k, v) # d else (k', v') # setitem d k v)"

fun dict_update :: "('k, 'v) dict \<Rightarrow> ('k, 'v) dict \<Rightarrow> ('k, 'v) dict" where
  "dict_update d [] = d"
| "dict_update d ((k, v) # e) = dict_update (setitem d k v) e"

definition dict_pop :: "('k, 'v) dict \<Rightarrow> 'k \<Rightarrow> 'v \<Rightarrow> 'v \<times> ('k, 'v) dict" where
  "dict_pop d k dflt =
     (case map_of d k of
        None \<Rightarrow> (dflt, d)
      | Some v \<Rightarrow> (v, filter (\<lambda>kv. fst kv \<noteq> k) d))"

text \<open>The first exception of a list of results, or all the values.\<close>

fun sequence_e :: "(error + 'a) list \<Rightarrow> error + 'a list" where
  "sequence_e [] = Inr []"
| "sequence_e (Inl e # rs) = Inl e"
| "sequence_e (Inr v # rs) = (case sequence_e rs of Inl e \<Rightarrow> Inl e | Inr vs \<Rightarrow> Inr (v # vs))"

section \<open>Arrays\<close>

text \<open>
  A numpy value is either a plain scalar or an array: a shape and the elements in
  row-major (C) order. \<open>np.shape\<close> of a scalar is the empty tuple and \<open>np.ravel\<close> of a
  scalar is a one-element vector.
\<close>

type_synonym shape = "nat list"

datatype 'a ndarray = Scalar 'a | Array shape "'a list"

fun np_shape :: "'a ndarray \<Rightarrow> shape" where
  "np_shape (Scalar v) = []"
| "np_shape (Array s d) = s"

fun np_ravel :: "'a ndarray \<Rightarrow> 'a list" where
  "np_ravel (Scalar v) = [v]"
| "np_ravel (Array s d) = d"

fun asanyarray :: "'a ndarray \<Rightarrow> 'a ndarray" where
  "asanyarray (Scalar v) = Array [] [v]"
| "asanyarray (Array s d) = Array s d"

text \<open>An array is well formed when it holds as many elements as its shape says.\<close>

fun wf_array :: "'a ndarray \<Rightarrow> bool" where
  "wf_array (Scalar v) = True"
| "wf_array (Array s d) = (length d = prod_list s)"

text \<open>\<open>np.concatenate\<close> of 1-D arrays; numpy refuses an empty sequence.\<close>

definition np_concatenate :: "'a list list \<Rightarrow> error + 'a ndarray" where
  "np_concatenate ds =
     (if ds = [] then Inl ValueError else Inr (Array [length (concat ds)] (concat ds)))"

text \<open>\<open>arr.reshape(shape)\<close>: the element count must be kept.\<close>

definition reshape :: "'a list \<Rightarrow> shape \<Rightarrow> error + 'a ndarray" where
  "reshape d s = (if prod_list s = length d then Inr (Array s d) else Inl ValueError)"

text \<open>\<open>arr.item()\<close>: only an array of one element converts to a scalar.\<close>

definition item :: "'a list \<Rightarrow> error + 'a ndarray" where
  "item d = (case d of [v] \<Rightarrow> Inr (Scalar v) | _ \<Rightarrow> Inl ValueError)"

text \<open>
  \<open>arr[(ind,) * ndim]\<close> for a slice \<open>ind = slice(i0, i1)\<close> with \<open>0 \<le> i0 \<le> i1\<close>:
  the same slice on each of the first \<open>ndim\<close> axes, the other axes kept whole. A slice
  is clipped to the axis; more indices than axes is an \<open>IndexError\<close>.
\<close>

fun slice_shape :: "nat \<Rightarrow> nat \<times> nat \<Rightarrow> shape \<Rightarrow> error + shape" where
  "slice_shape 0 ind s = Inr s"
| "slice_shape (Suc n) ind [] = Inl IndexError"
| "slice_shape (Suc n) (i0, i1) (m # s) =
     (case slice_shape n (i0, i1) s of
        Inl e \<Rightarrow> Inl e
      | Inr s' \<Rightarrow> Inr ((min i1 m - min i0 m) # s'))"

fun slice_data :: "nat \<Rightarrow> nat \<times> nat \<Rightarrow> shape \<Rightarrow> 'a list \<Rightarrow> 'a list" where
  "slice_data 0 ind s d = d"
| "slice_data (Suc n) ind [] d = d"
| "slice_data (Suc n) (i0, i1) (m # s) d =
     concat (map (\<lambda>j. slice_data n (i0, i1) s (take (prod_list s) (drop (j * prod_list s) d)))
                 [min i0 m ..< min i1 m])"

definition slice_axes :: "nat \<Rightarrow> nat \<times> nat \<Rightarrow> 'a ndarray \<Rightarrow> error + 'a ndarray" where
  "slice_axes ndim ind arr =
     (case slice_shape ndim ind (np_shape arr) of
        Inl e \<Rightarrow> Inl e
      | Inr s' \<Rightarrow> Inr (Array s' (slice_data ndim ind (np_shape arr) (np_ravel arr))))"

section \<open>FlattenArrays\<close>

text \<open>
  \<open>FlattenArrays\<close> is a dict from keys to registered shapes, with the split points of the
  flat vector computed once at construction.
\<close>

type_synonym 'k FlattenArrays = "('k, shape) dict"

fun cumsum_from :: "nat \<Rightarrow> nat list \<Rightarrow> nat list" where
  "cumsum_from acc [] = []"
| "cumsum_from acc (n # ns) = (acc + n) # cumsum_from (acc + n) ns"

definition splits :: "'k FlattenArrays \<Rightarrow> nat list" where
  "splits fa = cumsum_from 0 (map (\<lambda>ks. prod_list (snd ks)) fa)"

definition inds :: "'k FlattenArrays \<Rightarrow> (nat \<times> nat) list" where
  "inds fa = zip (0 # butlast (splits fa)) (splits fa)"

definition sizes :: "'k FlattenArrays \<Rightarrow> ('k, nat) dict" where
  "sizes fa = map (\<lambda>(k, s). (k, prod_list s)) fa"

definition size_fa :: "'k FlattenArrays \<Rightarrow> error + nat" where
  "size_fa fa = (if splits fa = [] then Inl IndexError else Inr (last (splits fa)))"

text \<open>
  The slices written recursively: entry \<open>k\<close> runs from the sum of the sizes before it
  to that sum plus its own size (\<open>zip_cumsum_from\<close> below shows it is what \<open>inds\<close>
  computes).
\<close>

fun inds_from :: "nat \<Rightarrow> nat list \<Rightarrow> (nat \<times> nat) list" where
  "inds_from a [] = []"
| "inds_from a (n # ns) = (a, a + n) # inds_from (a + n) ns"

text \<open>
  \<open>flatten\<close>: the assertion walks the registered items in order and stops at the first
  shape that differs (a missing key raises \<open>KeyError\<close> when it is reached); then the
  ravelled arrays are concatenated in registration order.
\<close>

fun shapes_match :: "'k FlattenArrays \<Rightarrow> ('k, 'a ndarray) dict \<Rightarrow> error + bool" where
  "shapes_match [] arrays_dict = Inr True"
| "shapes_match ((k, s) # fa) arrays_dict =
     (case getitem arrays_dict k of
        Inl e \<Rightarrow> Inl e
      | Inr a \<Rightarrow> if np_shape a = s then shapes_match fa arrays_dict else Inr False)"

definition flatten :: "'k FlattenArrays \<Rightarrow> ('k, 'a ndarray) dict \<Rightarrow> error + 'a ndarray" where
  "flatten fa arrays_dict =
     (case shapes_match fa arrays_dict of
        Inl e \<Rightarrow> Inl e
      | Inr False \<Rightarrow> Inl AssertionError
      | Inr True \<Rightarrow>
          (case sequence_e (map (\<lambda>k. getitem arrays_dict k) (map fst fa)) of
             Inl e \<Rightarrow> Inl e
           | Inr arrs \<Rightarrow> np_concatenate (map np_ravel arrs)))"

text \<open>
  \<open>unflatten\<close>: every slice is taken first, then each is reshaped to
  \<open>shape * ndim + arr_shape\<close>, or turned into a scalar when both are empty.
\<close>

definition unflatten_entry :: "nat \<Rightarrow> shape \<Rightarrow> 'a ndarray \<Rightarrow> error + 'a ndarray" where
  "unflatten_entry ndim s arr =
     (let arr_shape = drop ndim (np_shape arr) in
      if s \<noteq> [] \<or> arr_shape \<noteq> []
      then reshape (np_ravel arr) (concat (replicate ndim s) @ arr_shape)
      else item (np_ravel arr))"

definition unflatten ::
  "'k FlattenArrays \<Rightarrow> 'a ndarray \<Rightarrow> nat option \<Rightarrow> error + ('k, 'a ndarray) dict" where
  "unflatten fa arr0 ndim0 =
     (let arr = asanyarray arr0;
          ndim = (case ndim0 of None \<Rightarrow> length (np_shape arr) | Some n \<Rightarrow> n)
      in case sequence_e (map (\<lambda>ind. slice_axes ndim ind arr) (inds fa)) of
           Inl e \<Rightarrow> Inl e
         | Inr arrays \<Rightarrow>
             (case sequence_e (map (\<lambda>((k, s), a). unflatten_entry ndim s a) (zip fa arrays)) of
                Inl e \<Rightarrow> Inl e
              | Inr vals \<Rightarrow> Inr (zip (map fst fa) vals)))"

section \<open>Status, OptimizeResult and OptResult\<close>

text \<open>
  \<open>Status\<close> is a named tuple \<open>(success, messages)\<close> with defaults \<open>(True, ())\<close>.
\<close>

record Status =
  success :: bool
  messages :: "string list"

definition Status_default :: Status where
  "Status_default = \<lparr>success = True, messages = []\<rparr>"

text \<open>
  What the external \<open>minimize\<close> routine returns, as far as \<open>_parse_result\<close> reads it:
  the solution vector, the success flag, the message (bytes, decoded by the caller), the
  counters, the status code, the objective value and the dense inverse Hessian
  (\<open>result.hess_inv.todense()\<close>).
\<close>

record OptimizeResult =
  res_x :: "real ndarray"
  res_success :: bool
  res_message :: string
  res_nfev :: nat
  res_nit :: nat
  res_status :: int
  res_fun :: real
  res_hess_inv :: "real ndarray"

text \<open>
  \<open>OptResult\<close> is a named tuple of six fields, filled by position; Python does not check
  the field types, so a field holds whatever object the call site puts there.
\<close>

datatype 'k pyobj =
    PDict "('k, real ndarray) dict"
  | PFloat real
  | POptimizeResult OptimizeResult
  | PStatus Status

record 'k OptResult =
  mode :: "'k pyobj"
  hess_inv :: "'k pyobj"
  log_norm :: "'k pyobj"
  full_hess_inv :: "'k pyobj"
  result :: "'k pyobj"
  status :: "'k pyobj"

text \<open>
  The constructor call with five positional arguments: they fill the first five fields
  in declaration order and \<open>status\<close> takes its default \<open>Status()\<close>.
\<close>

definition OptResult5 ::
  "'k pyobj \<Rightarrow> 'k pyobj \<Rightarrow> 'k pyobj \<Rightarrow> 'k pyobj \<Rightarrow> 'k pyobj \<Rightarrow> 'k OptResult" where
  "OptResult5 a1 a2 a3 a4 a5 =
     \<lparr>mode = a1, hess_inv = a2, log_norm = a3, full_hess_inv = a4, result = a5,
      status = PStatus Status_default\<rparr>"

text \<open>
  Attribute access on an \<open>OptResult\<close> by name: the six fields; a name that is not a
  field raises \<open>AttributeError\<close> (the methods a tuple also has are not modelled).
\<close>

definition OptResult_getattr :: "'k OptResult \<Rightarrow> string \<Rightarrow> error + 'k pyobj" where
  "OptResult_getattr r name =
     (if name = ''mode'' then Inr (mode r)
      else if name = ''hess_inv'' then Inr (hess_inv r)
      else if name = ''log_norm'' then Inr (log_norm r)
      else if name = ''full_hess_inv'' then Inr (full_hess_inv r)
      else if name = ''result'' then Inr (result r)
      else if name = ''status'' then Inr (status r)
      else Inl AttributeError)"

text \<open>Decimal formatting of the integers of an f-string.\<close>

fun str_nat :: "nat \<Rightarrow> string" where
  "str_nat n =
     (if n < 10 then [''0123456789'' ! n]
      else str_nat (n div 10) @ [''0123456789'' ! (n mod 10)])"

definition str_int :: "int \<Rightarrow> string" where
  "str_int i = (if i < 0 then CHR ''-'' # str_nat (nat (- i)) else str_nat (nat i))"

section \<open>OptFactor\<close>

text \<open>
  The fields of \<open>OptFactor\<close> that the modelled methods read. \<open>fixed_kws\<close> is \<open>None\<close>
  by default in the constructor. A name cannot start with an underscore here:
  \<open>_parse_result\<close> is \<open>parse_result\<close>, \<open>_minimise\<close> is \<open>minimise0\<close> and
  \<open>__call__\<close> is \<open>call\<close>.
\<close>

type_synonym bounds = "(real option \<times> real option) list"

record 'k OptFactor =
  param_shapes :: "'k FlattenArrays"
  free_vars :: "'k list"
  sign :: int
  fixed_kws :: "('k, real ndarray) dict option"
  opt_method :: string
  bounds :: "bounds option"

text \<open>\<open>d.update(None)\<close> raises \<open>TypeError\<close>.\<close>

definition update_kws ::
  "('k, 'v) dict \<Rightarrow> ('k, 'v) dict option \<Rightarrow> error + ('k, 'v) dict" where
  "update_kws d e = (case e of None \<Rightarrow> Inl TypeError | Some kws \<Rightarrow> Inr (dict_update d kws))"

text \<open>
  \<open>_parse_result\<close>: the prior status is unpacked, its success flag is replaced by the
  optimiser's, and one diagnostic message is appended to its messages.
\<close>

definition parse_message :: "OptimizeResult \<Rightarrow> string" where
  "parse_message res =
     ''optimise.find_factor_mode: '' @
     ''nfev='' @ str_nat (res_nfev res) @ '', nit='' @ str_nat (res_nit res) @
     '', status='' @ str_int (res_status res) @ '', message='' @ res_message res"

definition parse_status :: "OptimizeResult \<Rightarrow> Status option \<Rightarrow> Status" where
  "parse_status res status0 =
     (let st = (case status0 of None \<Rightarrow> Status_default | Some s \<Rightarrow> s);
          success0 = success st;
          messages0 = messages st;
          success1 = res_success res;
          messages1 = messages0 @ [parse_message res]
      in \<lparr>success = success1, messages = messages1\<rparr>)"

definition parse_result ::
  "'k OptFactor \<Rightarrow> OptimizeResult \<Rightarrow> Status option \<Rightarrow> error + 'k OptResult" where
  "parse_result self res status0 =
     (let st = parse_status res status0 in
      case unflatten (param_shapes self) (res_x res) None of
        Inl e \<Rightarrow> Inl e
      | Inr mode0 \<Rightarrow>
          (case update_kws mode0 (fixed_kws self) of
             Inl e \<Rightarrow> Inl e
           | Inr mode1 \<Rightarrow>
               (case unflatten (param_shapes self) (res_hess_inv res) None of
                  Inl e \<Rightarrow> Inl e
                | Inr covar \<Rightarrow>
                    Inr (OptResult5 (PDict mode1) (PDict covar) (PFloat (- res_fun res))
                           (POptimizeResult res) (PStatus st)))))"

text \<open>
  \<open>__call__\<close>: the objective handed to the minimiser. The factor approximation is a
  callable of the absent module \<open>mean_field\<close>; it is a parameter of the model.
\<close>

definition call ::
  "(('k, real ndarray) dict \<Rightarrow> error + real ndarray) \<Rightarrow> 'k OptFactor \<Rightarrow> real ndarray
     \<Rightarrow> error + real" where
  "call factor_approx self args =
     (case unflatten (param_shapes self) args None of
        Inl e \<Rightarrow> Inl e
      | Inr params0 \<Rightarrow>
          (case update_kws params0 (fixed_kws self) of
             Inl e \<Rightarrow> Inl e
           | Inr params \<Rightarrow>
               (case factor_approx params of
                  Inl e \<Rightarrow> Inl e
                | Inr v \<Rightarrow> Inr (of_int (sign self) * sum_list (np_ravel v)))))"

text \<open>
  \<open>_minimise\<close>: flatten the starting point and call the external \<open>minimize\<close>
  (a parameter: objective, start vector, method, bounds, and the remaining keyword
  arguments passed through unchanged).
\<close>

definition minimise0 ::
  "((real ndarray \<Rightarrow> error + real) \<Rightarrow> real ndarray \<Rightarrow> string \<Rightarrow> bounds option \<Rightarrow> 'e
      \<Rightarrow> error + OptimizeResult)
   \<Rightarrow> (('k, real ndarray) dict \<Rightarrow> error + real ndarray)
   \<Rightarrow> 'k OptFactor \<Rightarrow> ('k, real ndarray) dict \<Rightarrow> string option \<Rightarrow> bounds option \<Rightarrow> 'e
   \<Rightarrow> error + OptimizeResult" where
  "minimise0 minimize factor_approx self arrays_dict method0 bounds0 extra =
     (case flatten (param_shapes self) arrays_dict of
        Inl e \<Rightarrow> Inl e
      | Inr x0 \<Rightarrow>
          (let bounds1 = (case bounds0 of None \<Rightarrow> bounds self | Some b \<Rightarrow> Some b);
               method1 = (case method0 of None \<Rightarrow> opt_method self | Some m \<Rightarrow> m)
           in minimize (call factor_approx self) x0 method1 bounds1 extra))"

text \<open>
  The starting point of \<open>maximise\<close>: for each free variable, in order, a sample is
  drawn from the current message (the default argument is evaluated before the pop),
  then the variable is popped from the caller's dictionary. Sampling is external and
  random: a parameter that threads a generator state and may raise.
\<close>

fun start_point ::
  "('k \<Rightarrow> 'g \<Rightarrow> (error + real ndarray) \<times> 'g) \<Rightarrow> 'k list
   \<Rightarrow> ('k, real ndarray) dict \<Rightarrow> ('k, real ndarray) dict \<Rightarrow> 'g
   \<Rightarrow> (error + ('k, real ndarray) dict) \<times> ('k, real ndarray) dict \<times> 'g" where
  "start_point sample [] p0 arrays_dict g = (Inr p0, arrays_dict, g)"
| "start_point sample (v # vs) p0 arrays_dict g =
     (case sample v g of
        (Inl e, g') \<Rightarrow> (Inl e, arrays_dict, g')
      | (Inr dflt, g') \<Rightarrow>
          (case dict_pop arrays_dict v dflt of
             (a, arrays_dict') \<Rightarrow> start_point sample vs (setitem p0 v a) arrays_dict' g'))"

text \<open>
  \<open>maximise\<close>: the object's sign flag, the caller's dictionary and the generator are
  state; the function returns them with the result. An exception leaves the state as it
  was when it was raised.
\<close>

definition maximise ::
  "('k \<Rightarrow> 'g \<Rightarrow> (error + real ndarray) \<times> 'g)
   \<Rightarrow> ((real ndarray \<Rightarrow> error + real) \<Rightarrow> real ndarray \<Rightarrow> string \<Rightarrow> bounds option \<Rightarrow> 'e
      \<Rightarrow> error + OptimizeResult)
   \<Rightarrow> (('k, real ndarray) dict \<Rightarrow> error + real ndarray)
   \<Rightarrow> 'k OptFactor \<Rightarrow> ('k, real ndarray) dict \<Rightarrow> bounds option \<Rightarrow> 'e \<Rightarrow> Status option \<Rightarrow> 'g
   \<Rightarrow> 'k OptFactor \<times> ('k, real ndarray) dict \<times> 'g \<times> (error + 'k OptResult)" where
  "maximise sample minimize factor_approx self arrays_dict bounds0 extra status0 g =
     (let self1 = self\<lparr>sign := - 1\<rparr> in
      case start_point sample (free_vars self1) [] arrays_dict g of
        (Inl e, arrays_dict', g') \<Rightarrow> (self1, arrays_dict', g', Inl e)
      | (Inr p0, arrays_dict', g') \<Rightarrow>
          (case minimise0 minimize factor_approx self1 p0 None bounds0 extra of
             Inl e \<Rightarrow> (self1, arrays_dict', g', Inl e)
           | Inr res \<Rightarrow>
               (let self2 = self1\<lparr>sign := 1\<rparr>
                in (self2, arrays_dict', g', parse_result self2 res status0))))"

section \<open>Uncertainty propagation\<close>

text \<open>Python's \<open>xs[:i]\<close> and \<open>xs[i:]\<close>; a negative index counts from the end.\<close>

definition py_upto :: "int \<Rightarrow> 'a list \<Rightarrow> 'a list" where
  "py_upto i xs = (if i < 0 then take (length xs - nat (- i)) xs else take (nat i) xs)"

definition py_from :: "int \<Rightarrow> 'a list \<Rightarrow> 'a list" where
  "py_from i xs = (if i < 0 then drop (length xs - nat (- i)) xs else drop (nat i) xs)"

text \<open>
  A matrix of \<open>n\<close> rows and \<open>p\<close> columns in row-major order, given entry by entry;
  \<open>np.dot\<close> and \<open>.T\<close> of 2-D arrays on that layout. Floating-point numbers are
  modelled as reals.
\<close>

definition table :: "nat \<Rightarrow> nat \<Rightarrow> (nat \<Rightarrow> nat \<Rightarrow> 'a) \<Rightarrow> 'a list" where
  "table n p g = concat (map (\<lambda>i. map (g i) [0..<p]) [0..<n])"

definition dot :: "nat \<Rightarrow> nat \<Rightarrow> nat \<Rightarrow> real list \<Rightarrow> real list \<Rightarrow> real list" where
  "dot n m p a b = table n p (\<lambda>i j. sum_list (map (\<lambda>k. a ! (i * m + k) * b ! (k * p + j)) [0..<m]))"

definition transpose2d :: "nat \<Rightarrow> nat \<Rightarrow> 'a list \<Rightarrow> 'a list" where
  "transpose2d n m a = table m n (\<lambda>j i. a ! (i * m + j))"

text \<open>
  \<open>np.linalg.multi_dot\<close> of three matrices, with numpy's choice of the cheaper
  parenthesisation.
\<close>

definition multi_dot3 ::
  "nat \<times> nat \<Rightarrow> nat \<times> nat \<Rightarrow> nat \<times> nat \<Rightarrow> real list \<Rightarrow> real list \<Rightarrow> real list \<Rightarrow> real list" where
  "multi_dot3 sa sb sc a b c =
     (let a0 = fst sa; a1b0 = snd sa; b1c0 = fst sc; c1 = snd sc;
          cost1 = a0 * b1c0 * (a1b0 + c1);
          cost2 = a1b0 * c1 * (a0 + b1c0)
      in if cost1 < cost2 then dot a0 b1c0 c1 (dot a0 a1b0 b1c0 a b) c
         else dot a0 a1b0 c1 a (dot a1b0 b1c0 c1 b c))"

text \<open>
  \<open>propagate_uncertainty\<close>: \<open>jac.ndim\<close> needs an array; the chained comparison of the
  assertion is the conjunction of its two equalities.
\<close>

definition propagate_uncertainty :: "real ndarray \<Rightarrow> real ndarray \<Rightarrow> error + real ndarray" where
  "propagate_uncertainty cov0 jac =
     (case jac of
        Scalar v \<Rightarrow> Inl AttributeError
      | Array jshape jdata \<Rightarrow>
          (let cov = asanyarray cov0;
               var_ndim = length (np_shape cov) div 2;
               det_ndim = int (length jshape) - int var_ndim;
               det_shape = py_upto det_ndim jshape;
               var_shape = py_from det_ndim jshape
           in if \<not> (var_shape = take var_ndim (np_shape cov)
                    \<and> take var_ndim (np_shape cov) = drop var_ndim (np_shape cov))
              then Inl AssertionError
              else
                (let var_size = prod_list var_shape;
                     det_size = prod_list det_shape
                 in case reshape (np_ravel cov) [var_size, var_size] of
                      Inl e \<Rightarrow> Inl e
                    | Inr cov2d \<Rightarrow>
                        (case reshape jdata [det_size, var_size] of
                           Inl e \<Rightarrow> Inl e
                         | Inr jac2d \<Rightarrow>
                             reshape
                               (multi_dot3 (det_size, var_size) (var_size, var_size)
                                  (var_size, det_size)
                                  (np_ravel jac2d) (np_ravel cov2d)
                                  (transpose2d det_size var_size (np_ravel jac2d)))
                               (det_shape @ det_shape)))))"

section \<open>Covariance of the deterministic variables\<close>

text \<open>
  Addition of numpy values with broadcasting: shapes are aligned from the right, an axis
  of length 1 is repeated, any other difference is a \<open>ValueError\<close>. The sum of two plain
  scalars is a plain scalar.
\<close>

fun broadcast_rev :: "shape \<Rightarrow> shape \<Rightarrow> shape option" where
  "broadcast_rev [] t = Some t"
| "broadcast_rev s [] = Some s"
| "broadcast_rev (a # s) (b # t) =
     (if a = b \<or> b = 1 then map_option (Cons a) (broadcast_rev s t)
      else if a = 1 then map_option (Cons b) (broadcast_rev s t)
      else None)"

definition broadcast_shapes :: "shape \<Rightarrow> shape \<Rightarrow> shape option" where
  "broadcast_shapes s t = map_option rev (broadcast_rev (rev s) (rev t))"

fun broadcast_data :: "shape \<Rightarrow> shape \<Rightarrow> 'a list \<Rightarrow> 'a list" where
  "broadcast_data (t # ts) (s # ss) d =
     (if s = t
      then concat (map (\<lambda>i. broadcast_data ts ss (take (prod_list ss) (drop (i * prod_list ss) d)))
                       [0..<t])
      else concat (replicate t (broadcast_data ts ss d)))"
| "broadcast_data ts ss d = d"

definition broadcast_to :: "shape \<Rightarrow> 'a ndarray \<Rightarrow> 'a list" where
  "broadcast_to t a =
     broadcast_data t (replicate (length t - length (np_shape a)) 1 @ np_shape a) (np_ravel a)"

definition np_add :: "real ndarray \<Rightarrow> real ndarray \<Rightarrow> error + real ndarray" where
  "np_add a b =
     (case (a, b) of
        (Scalar u, Scalar v) \<Rightarrow> Inr (Scalar (u + v))
      | _ \<Rightarrow>
          (case broadcast_shapes (np_shape a) (np_shape b) of
             None \<Rightarrow> Inl ValueError
           | Some t \<Rightarrow> Inr (Array t (map2 (+) (broadcast_to t a) (broadcast_to t b)))))"


text \<open>
  The loop of \<open>update_det_cov\<close> over the items \<open>((det, v), jac)\<close> of the Jacobian:
  \<open>covars[det] = covars.get(det, 0.) + propagate_uncertainty(covars[v], jac)\<close>.
\<close>

fun det_cov_loop ::
  "(('k \<times> 'k) \<times> real ndarray) list \<Rightarrow> ('k, real ndarray) dict
     \<Rightarrow> error + ('k, real ndarray) dict" where
  "det_cov_loop [] covars = Inr covars"
| "det_cov_loop (((det, v), jac) # items) covars =
     (case getitem covars v of
        Inl e \<Rightarrow> Inl e
      | Inr cov \<Rightarrow>
          (case propagate_uncertainty cov jac of
             Inl e \<Rightarrow> Inl e
           | Inr det_cov \<Rightarrow>
               (case np_add (case map_of covars det of None \<Rightarrow> Scalar 0 | Some c \<Rightarrow> c) det_cov of
                  Inl e \<Rightarrow> Inl e
                | Inr s \<Rightarrow> det_cov_loop items (setitem covars det s))))"

text \<open>
  The dict that the loop mutates is the object held by the attribute it was read from;
  the model writes the updated dict back to that attribute.
\<close>

definition OptResult_setattr :: "'k OptResult \<Rightarrow> string \<Rightarrow> 'k pyobj \<Rightarrow> 'k OptResult" where
  "OptResult_setattr r name v =
     (if name = ''mode'' then r\<lparr>mode := v\<rparr>
      else if name = ''hess_inv'' then r\<lparr>hess_inv := v\<rparr>
      else if name = ''log_norm'' then r\<lparr>log_norm := v\<rparr>
      else if name = ''full_hess_inv'' then r\<lparr>full_hess_inv := v\<rparr>
      else if name = ''result'' then r\<lparr>result := v\<rparr>
      else if name = ''status'' then r\<lparr>status := v\<rparr>
      else r)"

text \<open>
  \<open>update_det_cov\<close> starts with \<open>covars = res.inv_hessian\<close>.
\<close>

definition update_det_cov ::
  "'k OptResult \<Rightarrow> (('k \<times> 'k) \<times> real ndarray) list \<Rightarrow> error + 'k OptResult" where
  "update_det_cov res jacobian =
     (case OptResult_getattr res ''inv_hessian'' of
        Inl e \<Rightarrow> Inl e
      | Inr (PDict covars) \<Rightarrow>
          (case det_cov_loop jacobian covars of
             Inl e \<Rightarrow> Inl e
           | Inr covars' \<Rightarrow> Inr (OptResult_setattr res ''inv_hessian'' (PDict covars')))
      | Inr _ \<Rightarrow> Inl TypeError)"

text \<open>
  What \<open>OptFactor.from_approx\<close> reads of a factor approximation (classes of the absent
  modules \<open>mean_field\<close> and \<open>messages\<close>): the factor's variables and, for each, its
  current message, either a \<open>FixedMessage\<close> with its mean or a message with a shape and
  a support.
\<close>

datatype message =
    FixedMessage "real ndarray"
  | Message shape "(real option \<times> real option) list"

record 'k FactorApproximation =
  variables :: "'k list"
  model_dist :: "('k, message) dict"

fun from_approx_loop ::
  "('k, message) dict \<Rightarrow> 'k list
     \<Rightarrow> ('k, shape) dict \<times> ('k, real ndarray) dict \<times> ('k, (real option \<times> real option) list) dict
     \<Rightarrow> error + ('k, shape) dict \<times> ('k, real ndarray) dict
                \<times> ('k, (real option \<times> real option) list) dict" where
  "from_approx_loop dists [] st = Inr st"
| "from_approx_loop dists (v # vs) (kwargs, fixed, bnds) =
     (case getitem dists v of
        Inl e \<Rightarrow> Inl e
      | Inr (FixedMessage mean) \<Rightarrow> from_approx_loop dists vs (kwargs, setitem fixed v mean, bnds)
      | Inr (Message s support) \<Rightarrow>
          from_approx_loop dists vs (setitem kwargs v s, fixed, setitem bnds v support))"

text \<open>
  \<open>OptFactor.__init__\<close>: the bounds of each free variable are repeated once per element,
  in the order of the flattened parameter vector; an empty or absent bounds dict is kept
  as it is.
\<close>

definition OptFactor_init ::
  "('k, shape) dict \<Rightarrow> ('k, real ndarray) dict option
     \<Rightarrow> ('k, (real option \<times> real option) list) dict option \<Rightarrow> int \<Rightarrow> string
     \<Rightarrow> error + 'k OptFactor" where
  "OptFactor_init kwargs fixed bnds sign0 meth =
     (case (case bnds of
              None \<Rightarrow> Inr None
            | Some [] \<Rightarrow> Inr (Some [])
            | Some bd \<Rightarrow>
                (case sequence_e
                        (map (\<lambda>(k, s).
                                case getitem bd k of
                                  Inl e \<Rightarrow> Inl e
                                | Inr support \<Rightarrow>
                                    Inr (concat (map (\<lambda>bound. replicate (prod_list s) bound) support)))
                             kwargs) of
                   Inl e \<Rightarrow> Inl e
                 | Inr bs \<Rightarrow> Inr (Some (concat bs)))) of
        Inl e \<Rightarrow> Inl e
      | Inr b \<Rightarrow>
          Inr \<lparr>param_shapes = kwargs, free_vars = map fst kwargs, sign = sign0,
               fixed_kws = fixed, opt_method = meth, bounds = b\<rparr>)"

definition from_approx ::
  "'k FactorApproximation \<Rightarrow> ('k, shape) dict \<Rightarrow> error + 'k OptFactor" where
  "from_approx fa kwargs0 =
     (case from_approx_loop (model_dist fa) (variables fa) (kwargs0, [], []) of
        Inl e \<Rightarrow> Inl e
      | Inr (kwargs, fixed, bnds) \<Rightarrow>
          OptFactor_init kwargs (Some fixed) (Some bnds) (- 1) ''L-BFGS-B'')"

text \<open>
  \<open>find_factor_mode\<close>: the factor's call and its Jacobian are methods of the absent
  module \<open>factor_graphs\<close>, parameters of the model. The function returns the caller's
  dictionary and the generator with the result.
\<close>

definition find_factor_mode ::
  "('k \<Rightarrow> 'g \<Rightarrow> (error + real ndarray) \<times> 'g)
   \<Rightarrow> ((real ndarray \<Rightarrow> error + real) \<Rightarrow> real ndarray \<Rightarrow> string \<Rightarrow> bounds option \<Rightarrow> 'e
      \<Rightarrow> error + OptimizeResult)
   \<Rightarrow> (('k, real ndarray) dict \<Rightarrow> error + real ndarray)
   \<Rightarrow> (('k, real ndarray) dict \<Rightarrow> error + real ndarray \<times> ('k, real ndarray) dict)
   \<Rightarrow> (('k, real ndarray) dict \<Rightarrow> 'k list \<Rightarrow> error + (('k \<times> 'k) \<times> real ndarray) list)
   \<Rightarrow> 'k FactorApproximation \<Rightarrow> bool \<Rightarrow> Status option \<Rightarrow> ('k, shape) dict
   \<Rightarrow> ('k, real ndarray) dict \<Rightarrow> bounds option \<Rightarrow> 'e \<Rightarrow> 'g
   \<Rightarrow> ('k, real ndarray) dict \<times> 'g \<times> (error + 'k OptResult)" where
  "find_factor_mode sample minimize factor_approx factor jacobian fa return_cov status0 kwargs
       arrays_dict bounds0 extra g =
     (case from_approx fa kwargs of
        Inl e \<Rightarrow> (arrays_dict, g, Inl e)
      | Inr opt \<Rightarrow>
          (case maximise sample minimize factor_approx opt arrays_dict bounds0 extra status0 g of
             (opt', arrays_dict', g', Inl e) \<Rightarrow> (arrays_dict', g', Inl e)
           | (opt', arrays_dict', g', Inr res) \<Rightarrow>
               (if return_cov then
                  (case mode res of
                     PDict m \<Rightarrow>
                       (case factor m of
                          Inl e \<Rightarrow> (arrays_dict', g', Inl e)
                        | Inr (val, deterministic_values) \<Rightarrow>
                            (let m' = dict_update m deterministic_values;
                                 res' = res\<lparr>mode := PDict m'\<rparr>
                             in case jacobian m' (free_vars opt') of
                                  Inl e \<Rightarrow> (arrays_dict', g', Inl e)
                                | Inr jac \<Rightarrow> (arrays_dict', g', update_det_cov res' jac)))
                   | _ \<Rightarrow> (arrays_dict', g', Inl AttributeError))
                else (arrays_dict', g', Inr res))))"

section \<open>Inverse of psi(x) - log(x)\<close>

text \<open>
  \<open>psilog\<close> and \<open>grad_psilog\<close>: the digamma and trigamma functions are scipy's
  (\<open>special.digamma\<close>, \<open>special.polygamma(1, .)\<close>), parameters of the model. Floats are
  modelled as reals.
\<close>

definition psilog :: "(real \<Rightarrow> real) \<Rightarrow> real \<Rightarrow> real" where
  "psilog digamma x = digamma x - ln x"

definition grad_psilog :: "(real \<Rightarrow> real) \<Rightarrow> real \<Rightarrow> real" where
  "grad_psilog trigamma x = trigamma x - 1 / x"

text \<open>The approximate starting guess.\<close>

definition initial_guess :: "real \<Rightarrow> real" where
  "initial_guess c =
     (let A = 38648347 / 100000000; beta = 89486989 / 100000000; gamma = 78578843 / 100000000
      in - (1 - (1 / 2) * (1 + A * (- c) powr beta) powr (- gamma)) / c)"

text \<open>
  The body of the refinement loop, on whole arrays: \<open>f0 = psilog(x0) - c\<close>, then
  \<open>x0 = x0 - f0 / grad_psilog(x0)\<close>.
\<close>

definition newton_step ::
  "(real \<Rightarrow> real) \<Rightarrow> (real \<Rightarrow> real) \<Rightarrow> real list \<Rightarrow> real list \<Rightarrow> real list" where
  "newton_step digamma trigamma c x0 =
     (let f0 = map2 (\<lambda>x ci. psilog digamma x - ci) x0 c
      in map2 (\<lambda>x f. x - f / grad_psilog trigamma x) x0 f0)"

text \<open>\<open>for _ in range(n): s = body(s)\<close>.\<close>

fun for_range :: "nat \<Rightarrow> ('s \<Rightarrow> 's) \<Rightarrow> 's \<Rightarrow> 's" where
  "for_range 0 body s = s"
| "for_range (Suc n) body s = for_range n body (body s)"

text \<open>
  \<open>invpsilog\<close>: the check \<open>np.all(c < 0)\<close> comes first, then the guess and four
  passes of the loop.
\<close>

definition invpsilog ::
  "(real \<Rightarrow> real) \<Rightarrow> (real \<Rightarrow> real) \<Rightarrow> real ndarray \<Rightarrow> error + real ndarray" where
  "invpsilog digamma trigamma c0 =
     (let c = asanyarray c0 in
      if \<not> list_all (\<lambda>v. v < 0) (np_ravel c) then Inl ValueError
      else
        (let x0 = map initial_guess (np_ravel c)
         in Inr (Array (np_shape c)
                   (for_range 4 (newton_step digamma trigamma (np_ravel c)) x0))))"

section \<open>Beta sufficient statistics\<close>

text \<open>
  \<open>inv_beta_suffstats\<close> works on an \<open>n\<close> by 2 array \<open>ab\<close>, here a list of rows
  \<open>(a, b)\<close>. \<open>psi\<close> and \<open>polygamma(1, .)\<close> are scipy's, parameters
  \<open>digamma\<close> and \<open>trigamma\<close> of the model; floats are modelled as reals.
\<close>

definition grad_betaln :: "(real \<Rightarrow> real) \<Rightarrow> (real \<times> real) list \<Rightarrow> (real \<times> real) list" where
  "grad_betaln digamma ab =
     map (\<lambda>(a, b). (digamma a - digamma (a + b), digamma b - digamma (a + b))) ab"

definition jac_grad_betaln ::
  "(real \<Rightarrow> real) \<Rightarrow> (real \<times> real) list \<Rightarrow> ((real \<times> real) \<times> (real \<times> real)) list" where
  "jac_grad_betaln trigamma ab =
     map (\<lambda>(a, b).
            let psi1ab = trigamma (a + b);
                fii0 = trigamma a - psi1ab;
                fii1 = trigamma b - psi1ab;
                fij = - psi1ab
            in ((fii0, fij), (fij, fii1))) ab"

text \<open>
  \<open>np.linalg.solve\<close> on a stack of 2 by 2 systems, one per row; a singular matrix raises
  \<open>LinAlgError\<close>.
\<close>

definition solve2 :: "(real \<times> real) \<times> (real \<times> real) \<Rightarrow> real \<times> real \<Rightarrow> error + real \<times> real" where
  "solve2 m r =
     (case m of ((a11, a12), (a21, a22)) \<Rightarrow>
        (case r of (r1, r2) \<Rightarrow>
           (let det = a11 * a22 - a12 * a21
            in if det = 0 then Inl LinAlgError
               else Inr ((r1 * a22 - a12 * r2) / det, (a11 * r2 - a21 * r1) / det))))"

definition linalg_solve ::
  "((real \<times> real) \<times> (real \<times> real)) list \<Rightarrow> (real \<times> real) list \<Rightarrow> error + (real \<times> real) list" where
  "linalg_solve jac rhs = sequence_e (map2 solve2 jac rhs)"

text \<open>
  The body of the Newton-Raphson loop: \<open>f = grad_betaln(ab) - lnXs\<close>,
  \<open>jac = jac_grad_betaln(ab)\<close>, \<open>ab += np.linalg.solve(jac, -f)\<close>.
\<close>

definition beta_newton_step ::
  "(real \<Rightarrow> real) \<Rightarrow> (real \<Rightarrow> real) \<Rightarrow> (real \<times> real) list \<Rightarrow> (real \<times> real) list
     \<Rightarrow> error + (real \<times> real) list" where
  "beta_newton_step digamma trigamma lnXs ab =
     (let f = map2 (\<lambda>(g1, g2) (l1, l2). (g1 - l1, g2 - l2)) (grad_betaln digamma ab) lnXs;
          jac = jac_grad_betaln trigamma ab
      in case linalg_solve jac (map (\<lambda>(f1, f2). (- f1, - f2)) f) of
           Inl e \<Rightarrow> Inl e
         | Inr d \<Rightarrow> Inr (map2 (\<lambda>(a, b) (d1, d2). (a + d1, b + d2)) ab d))"

text \<open>\<open>for i in range(n)\<close> with a body that may raise.\<close>

fun for_range_e :: "nat \<Rightarrow> ('s \<Rightarrow> error + 's) \<Rightarrow> 's \<Rightarrow> error + 's" where
  "for_range_e 0 body s = Inr s"
| "for_range_e (Suc n) body s =
     (case body s of Inl e \<Rightarrow> Inl e | Inr s' \<Rightarrow> for_range_e n body s')"

text \<open>\<open>np.c_[xs, ys]\<close> of two vectors: they must have the same length.\<close>

definition np_c :: "real list \<Rightarrow> real list \<Rightarrow> error + (real \<times> real) list" where
  "np_c xs ys = (if length xs = length ys then Inr (zip xs ys) else Inl ValueError)"

text \<open>The starting location \<open>np.maximum(1, (1 + Gs / dG) / 2)\<close>.\<close>

definition beta_start :: "(real \<times> real) list \<Rightarrow> (real \<times> real) list" where
  "beta_start lnXs =
     map (\<lambda>(l1, l2).
            let g1 = exp l1; g2 = exp l2; dG = 1 - (g1 + g2)
            in (max 1 ((1 + g1 / dG) / 2), max 1 ((1 + g2 / dG) / 2))) lnXs"

text \<open>
  The end of the function, after the loop: when an entry of \<open>ab\<close> is negative a
  \<open>RuntimeWarning\<close> is issued and the clipped array is assigned to the variable \<open>b\<close>;
  then \<open>a\<close> and \<open>b\<close> are assigned from the columns of \<open>ab\<close>. The function returns
  the warnings issued with its result.
\<close>

datatype warning = RuntimeWarning string

definition inv_beta_finish ::
  "(real \<times> real) list \<Rightarrow> shape \<Rightarrow> warning list \<times> (error + real ndarray \<times> real ndarray)" where
  "inv_beta_finish ab shp =
     (let negative = list_ex (\<lambda>(a, b). a < 0 \<or> b < 0) ab;
          warnings =
            (if negative
             then [RuntimeWarning
                     ''invalid negative parameters found for inv_beta_suffstats, clampling value to 0.5'']
             else []);
          b = (if negative then Some (map (\<lambda>(a, b). (max (1 / 2) a, max (1 / 2) b)) ab) else None)
      in if shp \<noteq> []
         then (case reshape (map fst ab) shp of
                 Inl e \<Rightarrow> (warnings, Inl e)
               | Inr a \<Rightarrow>
                   (case reshape (map snd ab) shp of
                      Inl e \<Rightarrow> (warnings, Inl e)
                    | Inr b \<Rightarrow> (warnings, Inr (a, b))))
         else (case ab of
                 [] \<Rightarrow> (warnings, Inl IndexError)
               | (a, b) # rest \<Rightarrow> (warnings, Inr (Scalar a, Scalar b))))"

definition inv_beta_suffstats ::
  "(real \<Rightarrow> real) \<Rightarrow> (real \<Rightarrow> real) \<Rightarrow> real ndarray \<Rightarrow> real ndarray
     \<Rightarrow> warning list \<times> (error + real ndarray \<times> real ndarray)" where
  "inv_beta_suffstats digamma trigamma lnX ln1X =
     (case np_c (np_ravel lnX) (np_ravel ln1X) of
        Inl e \<Rightarrow> ([], Inl e)
      | Inr lnXs \<Rightarrow>
          (case for_range_e 5 (beta_newton_step digamma trigamma lnXs) (beta_start lnXs) of
             Inl e \<Rightarrow> ([], Inl e)
           | Inr ab \<Rightarrow> inv_beta_finish ab (np_shape lnX)))"

section \<open>Laplace updates and LaplaceOptimiser\<close>

text \<open>
  \<open>laplace_factor_approx\<close> works through the absent modules \<open>mean_field\<close> and
  \<open>factor_graphs\<close>. Their operations are parameters of the model, collected in one
  record: building the factor approximation of a factor, what \<open>OptFactor.from_approx\<close>
  reads of it, sampling a variable's message, the approximation's log density, the
  factor's call and Jacobian, the three projections, the factors of the graph, the
  external \<open>minimize\<close> and the default values of its pass-through keyword arguments.
\<close>

record ('a, 'f, 'fa, 'k, 'g, 'e, 'md, 'pr) mean_field =
  factor_approximation :: "'a \<Rightarrow> 'f \<Rightarrow> error + 'fa"
  fa_view :: "'fa \<Rightarrow> 'k FactorApproximation"
  fa_sample :: "'fa \<Rightarrow> 'k \<Rightarrow> 'g \<Rightarrow> (error + real ndarray) \<times> 'g"
  fa_call :: "'fa \<Rightarrow> ('k, real ndarray) dict \<Rightarrow> error + real ndarray"
  fa_factor :: "'fa \<Rightarrow> ('k, real ndarray) dict \<Rightarrow> error + real ndarray \<times> ('k, real ndarray) dict"
  fa_jacobian ::
    "'fa \<Rightarrow> ('k, real ndarray) dict \<Rightarrow> 'k list \<Rightarrow> error + (('k \<times> 'k) \<times> real ndarray) list"
  project_mode :: "'fa \<Rightarrow> 'k OptResult \<Rightarrow> error + 'md"
  fa_project :: "'fa \<Rightarrow> 'md \<Rightarrow> real \<Rightarrow> 'k pyobj \<Rightarrow> error + 'pr \<times> Status"
  approx_project :: "'a \<Rightarrow> 'pr \<Rightarrow> Status \<Rightarrow> error + 'a \<times> Status"
  graph_factors :: "'a \<Rightarrow> 'f list"
  scipy_minimize ::
    "(real ndarray \<Rightarrow> error + real) \<Rightarrow> real ndarray \<Rightarrow> string \<Rightarrow> bounds option \<Rightarrow> 'e
       \<Rightarrow> error + OptimizeResult"
  default_kwargs :: 'e

text \<open>
  \<open>laplace_factor_approx\<close>: the \<open>status\<close> argument is not used (its use is commented
  out in the source); \<open>opt_kws\<close> is forwarded as keyword arguments of
  \<open>find_factor_mode\<close>, modelled as the shapes handed on to \<open>from_approx\<close>. The default
  \<open>arrays_dict\<close> of \<open>maximise\<close> is the empty dict.
\<close>

definition laplace_factor_approx ::
  "('a, 'f, 'fa, 'k, 'g, 'e, 'md, 'pr) mean_field \<Rightarrow> 'a \<Rightarrow> 'f \<Rightarrow> real \<Rightarrow> 's option
     \<Rightarrow> ('k, shape) dict option \<Rightarrow> 'g \<Rightarrow> (error + 'a \<times> Status) \<times> 'g" where
  "laplace_factor_approx mf model_approx factor delta0 status0 opt_kws0 g =
     (let opt_kws = (case opt_kws0 of None \<Rightarrow> [] | Some kws \<Rightarrow> kws) in
      case factor_approximation mf model_approx factor of
        Inl e \<Rightarrow> (Inl e, g)
      | Inr factor_approx \<Rightarrow>
          (case find_factor_mode (fa_sample mf factor_approx) (scipy_minimize mf)
                  (fa_call mf factor_approx) (fa_factor mf factor_approx)
                  (fa_jacobian mf factor_approx) (fa_view mf factor_approx)
                  True None opt_kws [] None (default_kwargs mf) g of
             (arrays_dict, g', Inl e) \<Rightarrow> (Inl e, g')
           | (arrays_dict, g', Inr res) \<Rightarrow>
               (case project_mode mf factor_approx res of
                  Inl e \<Rightarrow> (Inl e, g')
                | Inr model_dist0 \<Rightarrow>
                    (case fa_project mf factor_approx model_dist0 delta0 (status res) of
                       Inl e \<Rightarrow> (Inl e, g')
                     | Inr (projection, st) \<Rightarrow>
                         (case approx_project mf model_approx projection st of
                            Inl e \<Rightarrow> (Inl e, g')
                          | Inr (new_approx, st') \<Rightarrow> (Inr (new_approx, st'), g'))))))"

text \<open>
  The optimiser object: the history dict keyed by \<open>(sweep index, factor)\<close>, the number
  of sweeps, the damping and the optimiser keywords.
\<close>

record ('f, 'a, 'k) LaplaceOptimiser =
  history :: "(nat \<times> 'f, 'a) dict"
  n_iter :: nat
  delta :: real
  opt_kws :: "('k, shape) dict"

text \<open>
  \<open>step\<close> is a generator: it yields \<open>(factor, new_approx)\<close> after each factor update,
  each update starting from the approximation of the one before; the status an update
  returns is dropped. The model returns the yields up to the first exception, and that
  exception. The loop is written for any update function; \<open>step\<close> runs it with
  \<open>laplace_factor_approx(new_approx, factor, self.delta, self.opt_kws)\<close>, where the
  fourth positional argument is the parameter \<open>status\<close> and \<open>opt_kws\<close> keeps its
  default.
\<close>

fun step_from ::
  "('a \<Rightarrow> 'f \<Rightarrow> 'g \<Rightarrow> (error + 'a \<times> 's) \<times> 'g) \<Rightarrow> 'a \<Rightarrow> 'f list \<Rightarrow> 'g
     \<Rightarrow> (('f \<times> 'a) list \<times> error option) \<times> 'g" where
  "step_from update new_approx [] g = (([], None), g)"
| "step_from update new_approx (factor # factors) g =
     (case update new_approx factor g of
        (Inl e, g') \<Rightarrow> (([], Some e), g')
      | (Inr (a, st), g') \<Rightarrow>
          (case step_from update a factors g' of
             ((ys, r), g'') \<Rightarrow> (((factor, a) # ys, r), g'')))"

definition step ::
  "('a, 'f, 'fa, 'k, 'g, 'e, 'md, 'pr) mean_field \<Rightarrow> ('f, 'a, 'k) LaplaceOptimiser \<Rightarrow> 'a
     \<Rightarrow> 'f list option \<Rightarrow> 'g \<Rightarrow> (('f \<times> 'a) list \<times> error option) \<times> 'g" where
  "step mf self model_approx factors0 g =
     (let new_approx = model_approx;
          factors = (case factors0 of None \<Rightarrow> graph_factors mf model_approx | Some fs \<Rightarrow> fs)
      in step_from
           (\<lambda>a factor. laplace_factor_approx mf a factor (delta self) (Some (opt_kws self)) None)
           new_approx factors g)"

text \<open>
  The body of the inner loop of \<open>run\<close>: each yield is stored in the history under
  \<open>(i, factor)\<close> and bound to the local variable \<open>new_approx\<close> (unbound before the
  first yield).
\<close>

fun record_yields ::
  "nat \<Rightarrow> ('f \<times> 'a) list \<Rightarrow> (nat \<times> 'f, 'a) dict \<times> 'a option
     \<Rightarrow> (nat \<times> 'f, 'a) dict \<times> 'a option" where
  "record_yields i [] st = st"
| "record_yields i ((factor, a) # ys) (h, new_approx) =
     record_yields i ys (setitem h (i, factor) a, Some a)"

text \<open>
  The outer loop of \<open>run\<close>: every sweep runs \<open>self.step(model_approx, factors)\<close>, the
  same call with the argument \<open>model_approx\<close> of \<open>run\<close>.
\<close>

fun sweeps ::
  "('g \<Rightarrow> (('f \<times> 'a) list \<times> error option) \<times> 'g) \<Rightarrow> nat list
     \<Rightarrow> (nat \<times> 'f, 'a) dict \<times> 'a option \<Rightarrow> 'g
     \<Rightarrow> (((nat \<times> 'f, 'a) dict \<times> 'a option) \<times> error option) \<times> 'g" where
  "sweeps one_sweep [] st g = ((st, None), g)"
| "sweeps one_sweep (i # is) st g =
     (case one_sweep g of
        ((ys, Some e), g') \<Rightarrow> ((record_yields i ys st, Some e), g')
      | ((ys, None), g') \<Rightarrow> sweeps one_sweep is (record_yields i ys st) g')"

text \<open>
  \<open>run\<close> returns the local \<open>new_approx\<close>; when no yield ever bound it the
  \<open>return\<close> raises \<open>UnboundLocalError\<close>.
\<close>

definition finish_run ::
  "('f, 'a, 'k) LaplaceOptimiser
     \<Rightarrow> (((nat \<times> 'f, 'a) dict \<times> 'a option) \<times> error option) \<times> 'g
     \<Rightarrow> ('f, 'a, 'k) LaplaceOptimiser \<times> (error + 'a) \<times> 'g" where
  "finish_run self out =
     (case out of
        (((h, new_approx), Some e), g') \<Rightarrow> (self\<lparr>history := h\<rparr>, Inl e, g')
      | (((h, None), None), g') \<Rightarrow> (self\<lparr>history := h\<rparr>, Inl UnboundLocalError, g')
      | (((h, Some a), None), g') \<Rightarrow> (self\<lparr>history := h\<rparr>, Inr a, g'))"

definition run ::
  "('a, 'f, 'fa, 'k, 'g, 'e, 'md, 'pr) mean_field \<Rightarrow> ('f, 'a, 'k) LaplaceOptimiser \<Rightarrow> 'a
     \<Rightarrow> 'f list option \<Rightarrow> 'g \<Rightarrow> ('f, 'a, 'k) LaplaceOptimiser \<times> (error + 'a) \<times> 'g" where
  "run mf self model_approx factors g =
     finish_run self
       (sweeps (step mf self model_approx factors) [0..<n_iter self] (history self, None) g)"

section \<open>Example inputs\<close>

text \<open>
  A one-variable optimiser with a scalar free variable \<open>x\<close>, a sampler that always
  returns 0, and a minimiser that stops without converging.
\<close>

definition ex_opt :: "string OptFactor" where
  "ex_opt = \<lparr>param_shapes = [(''x'', [])], free_vars = [''x''], sign = 1,
             fixed_kws = Some [], opt_method = ''L-BFGS-B'', bounds = None\<rparr>"

definition ex_sample :: "string \<Rightarrow> unit \<Rightarrow> (error + real ndarray) \<times> unit" where
  "ex_sample v g = (Inr (Scalar 0), g)"

definition ex_failed :: OptimizeResult where
  "ex_failed = \<lparr>res_x = Array [1] [1 / 2], res_success = False,
                res_message = ''ABNORMAL_TERMINATION_IN_LNSRCH'', res_nfev = 21, res_nit = 0,
                res_status = 2, res_fun = 1, res_hess_inv = Array [1, 1] [2]\<rparr>"

definition ex_converged :: OptimizeResult where
  "ex_converged = \<lparr>res_x = Array [1] [0], res_success = True,
                   res_message = ''CONVERGENCE'', res_nfev = 3, res_nit = 1,
                   res_status = 0, res_fun = 0, res_hess_inv = Array [1, 1] [1]\<rparr>"

definition ex_minimize ::
  "(real ndarray \<Rightarrow> error + real) \<Rightarrow> real ndarray \<Rightarrow> string \<Rightarrow> bounds option \<Rightarrow> unit
     \<Rightarrow> error + OptimizeResult" where
  "ex_minimize f x0 m b e = Inr ex_failed"

definition ex_factor_approx :: "(string, real ndarray) dict \<Rightarrow> error + real ndarray" where
  "ex_factor_approx params = Inr (Scalar 0)"

text \<open>
  The registered shapes of the class's docstring with a scalar entry \<open>c\<close> added, an
  assignment of those shapes, and per-key blocks carrying a trailing batch axis of length 2.
\<close>

definition ex_fa :: "string FlattenArrays" where
  "ex_fa = [(''a'', [1, 2]), (''b'', [2, 3]), (''c'', [])]"

definition ex_x :: "(string, int ndarray) dict" where
  "ex_x = [(''a'', Array [1, 2] [0, 1]), (''b'', Array [2, 3] [0, 1, 4, 9, 16, 25]),
           (''c'', Scalar 5)]"

definition ex_blocks :: "string \<times> shape \<Rightarrow> int list" where
  "ex_blocks ks =
     (if fst ks = ''a'' then [0, 10, 1, 11]
      else if fst ks = ''b'' then [0, 10, 1, 11, 4, 14, 9, 19, 16, 26, 25, 35]
      else [5, 15])"

text \<open>The identity matrix, \<open>np.eye(n)\<close>.\<close>

definition np_eye :: "nat \<Rightarrow> real ndarray" where
  "np_eye n = Array [n, n] (table n n (\<lambda>i j. if i = j then 1 else 0))"

text \<open>
  A factor update that returns: the approximation is the number of updates applied to it.
\<close>

definition ex_update :: "int \<Rightarrow> string \<Rightarrow> unit \<Rightarrow> (error + int \<times> Status) \<times> unit" where
  "ex_update approx factor g = (Inr (approx + 1, Status_default), g)"

section \<open>Verified properties\<close>

subsection \<open>Parsing the optimiser's result\<close>

lemma parse_result_fields:
  assumes "parse_result self res st = Inr r"
  shows "status r = PStatus Status_default" and "result r = PStatus (parse_status res st)"
  using assms
  by (auto simp: parse_result_def OptResult5_def Let_def split: sum.splits)

text \<open>
  Claim C2. When \<open>minimize\<close> reports non-convergence, \<open>maximise\<close> raises nothing and
  returns the mode and covariance, but the \<open>Status\<close> carrying \<open>success = False\<close> and
  the diagnostic message is the fifth positional argument of \<open>OptResult\<close> and lands in
  the field \<open>result\<close>; the field \<open>status\<close> keeps its default, \<open>success = True\<close> with
  no message. Evaluated on a non-converged run of the one-variable optimiser.
\<close>

theorem maximise_nonconvergence_status_field:
  "snd (snd (snd (maximise ex_sample ex_minimize ex_factor_approx ex_opt [] None () None ())))
   = Inr \<lparr>mode = PDict [(''x'', Scalar (1 / 2))],
          hess_inv = PDict [(''x'', Scalar 2)],
          log_norm = PFloat (- 1),
          full_hess_inv = POptimizeResult ex_failed,
          result = PStatus \<lparr>success = False, messages =
            [''optimise.find_factor_mode: nfev=21, nit=0, status=2, message=ABNORMAL_TERMINATION_IN_LNSRCH'']\<rparr>,
          status = PStatus \<lparr>success = True, messages = []\<rparr>\<rparr>"
  by (simp add: maximise_def minimise0_def flatten_def getitem_def np_concatenate_def
      dict_pop_def parse_result_def parse_status_def parse_message_def str_int_def
      unflatten_def inds_def splits_def slice_axes_def unflatten_entry_def item_def reshape_def
      update_kws_def OptResult5_def Status_default_def Let_def
      ex_opt_def ex_sample_def ex_minimize_def ex_failed_def)

lemma parse_status_fold:
  "messages (parse_status res (Some s1)) = messages s1 @ [parse_message res] \<and>
   success (parse_status res (Some s1)) = res_success res \<and>
   parse_status res None = \<lparr>success = res_success res, messages = [parse_message res]\<rparr>"
  by (simp add: parse_status_def Let_def Status_default_def)

text \<open>
  Claim C5. \<open>_parse_result\<close> folds a prior status into the new one: the messages of the
  prior status come first, followed by the new diagnostic message, as claimed; but the
  success flag unpacked from the prior status is overwritten by the optimiser's flag
  before it is read. A prior status with \<open>success = False\<close> folded with a converged run
  yields \<open>success = True\<close>, where the conjunction of the two flags is \<open>False\<close>: the
  earlier failure is lost.
\<close>

theorem parse_status_loses_prior_failure:
  "parse_status ex_converged (Some \<lparr>success = False, messages = [''earlier step failed'']\<rparr>)
     = \<lparr>success = True,
        messages = [''earlier step failed'',
                    ''optimise.find_factor_mode: nfev=3, nit=1, status=0, message=CONVERGENCE'']\<rparr>"
  by (simp add: parse_status_def parse_message_def str_int_def Let_def ex_converged_def)

subsection \<open>The starting point of maximise\<close>

lemma dict_pop_snd: "snd (dict_pop d k dflt) = filter (\<lambda>kv. fst kv \<noteq> k) d"
proof (cases "map_of d k")
  case None
  then have "k \<notin> fst ` set d" by (simp add: map_of_eq_None_iff)
  then have "filter (\<lambda>kv. fst kv \<noteq> k) d = d" by (auto simp: filter_id_conv)
  with None show ?thesis by (simp add: dict_pop_def)
next
  case (Some v)
  then show ?thesis by (simp add: dict_pop_def)
qed

lemma start_point_pops:
  assumes "\<forall>v\<in>set vs. \<forall>g. \<exists>a g'. sample v g = (Inr a, g')"
  shows "\<exists>p g'. start_point sample vs p0 ad g
            = (Inr p, filter (\<lambda>kv. fst kv \<notin> set vs) ad, g')"
  using assms
proof (induction vs arbitrary: p0 ad g)
  case Nil
  then show ?case by simp
next
  case (Cons v vs)
  then obtain a g1 where s: "sample v g = (Inr a, g1)" by (meson list.set_intros(1))
  obtain b ad1 where pop: "dict_pop ad v a = (b, ad1)" by (cases "dict_pop ad v a")
  then have ad1: "ad1 = filter (\<lambda>kv. fst kv \<noteq> v) ad" using dict_pop_snd[of ad v a] by simp
  from Cons.prems have "\<forall>v\<in>set vs. \<forall>g. \<exists>a g'. sample v g = (Inr a, g')" by simp
  from Cons.IH[OF this, of "setitem p0 v b" ad1 g1]
  obtain p g' where "start_point sample vs (setitem p0 v b) ad1 g1
      = (Inr p, filter (\<lambda>kv. fst kv \<notin> set vs) ad1, g')"
    by blast
  moreover have "filter (\<lambda>kv. fst kv \<notin> set vs) ad1 = filter (\<lambda>kv. fst kv \<notin> set (v # vs)) ad"
    by (auto simp: ad1 intro: filter_cong)
  ultimately show ?case using s pop by simp
qed

text \<open>
  Claim C10. Whenever drawing the default samples raises nothing, the caller's dictionary
  after \<open>maximise\<close> (whether the call then returns or raises) is the dictionary before the
  call without the entries of the free variables: no free variable is a key of it any
  more, and the other entries are kept in order.
\<close>

theorem maximise_pops_free_vars:
  assumes "\<forall>v\<in>set (free_vars self). \<forall>g. \<exists>a g'. sample v g = (Inr a, g')"
  shows "fst (snd (maximise sample minimize factor_approx self arrays_dict bounds0 extra status0 g))
           = filter (\<lambda>kv. fst kv \<notin> set (free_vars self)) arrays_dict
       \<and> (\<forall>v\<in>set (free_vars self). v \<notin> fst ` set (fst (snd
            (maximise sample minimize factor_approx self arrays_dict bounds0 extra status0 g))))"
proof -
  obtain p g' where "start_point sample (free_vars self) [] arrays_dict g
      = (Inr p, filter (\<lambda>kv. fst kv \<notin> set (free_vars self)) arrays_dict, g')"
    using start_point_pops[OF assms] by blast
  then have "fst (snd (maximise sample minimize factor_approx self arrays_dict bounds0 extra status0 g))
           = filter (\<lambda>kv. fst kv \<notin> set (free_vars self)) arrays_dict"
    by (simp add: maximise_def Let_def split: sum.splits)
  then show ?thesis by auto
qed

theorem maximise_pops_free_vars_witness:
  "free_vars ex_opt = [''x''] \<and>
   (\<forall>g. ex_sample ''x'' g = (Inr (Scalar 0), g)) \<and>
   fst (snd (maximise ex_sample ex_minimize ex_factor_approx ex_opt
              [(''x'', Scalar 3), (''y'', Scalar 4)] None () None ()))
     = [(''y'', Scalar 4)]"
proof -
  have h: "\<forall>v\<in>set (free_vars ex_opt). \<forall>g. \<exists>a g'. ex_sample v g = (Inr a, g')"
    by (simp add: ex_sample_def)
  have c: "fst (snd (maximise ex_sample ex_minimize ex_factor_approx ex_opt
              [(''x'', Scalar 3), (''y'', Scalar 4)] None () None ()))
     = filter (\<lambda>kv. fst kv \<notin> set (free_vars ex_opt)) [(''x'', Scalar 3), (''y'', Scalar 4)]"
    using maximise_pops_free_vars [OF h, of ex_minimize ex_factor_approx
        "[(''x'', Scalar 3), (''y'', Scalar 4)]" None "()" None "()"]
    by (rule conjunct1)
  have f: "free_vars ex_opt = [''x'']" by (simp add: ex_opt_def)
  show ?thesis
    unfolding c f by (simp add: ex_sample_def)
qed

subsection \<open>Slices of FlattenArrays\<close>

lemma zip_cumsum_from:
  "zip (a # butlast (cumsum_from a ns)) (cumsum_from a ns) = inds_from a ns"
proof (induction ns arbitrary: a)
  case Nil
  then show ?case by simp
next
  case (Cons n ns)
  show ?case
  proof (cases ns)
    case Nil
    then show ?thesis by simp
  next
    case (Cons n' ns')
    with Cons.IH[of "a + n"] show ?thesis by simp
  qed
qed

lemma inds_eq: "inds fa = inds_from 0 (map (\<lambda>ks. prod_list (snd ks)) fa)"
  by (simp add: inds_def splits_def zip_cumsum_from)

lemma concat_chunks:
  "i0 \<le> i1 \<Longrightarrow> i1 * w \<le> length d \<Longrightarrow>
   concat (map (\<lambda>j. take w (drop (j * w) d)) [i0..<i1]) = take ((i1 - i0) * w) (drop (i0 * w) d)"
proof (induction i1)
  case 0
  then show ?case by simp
next
  case (Suc i1)
  show ?case
  proof (cases "i0 = Suc i1")
    case True
    then show ?thesis by simp
  next
    case False
    with Suc.prems have le: "i0 \<le> i1" and len: "i1 * w \<le> length d" by auto
    have eq: "i0 * w + (i1 - i0) * w = i1 * w"
      using le by (metis add.commute add_mult_distrib le_add_diff_inverse2 )
    have "concat (map (\<lambda>j. take w (drop (j * w) d)) [i0..<Suc i1])
        = take ((i1 - i0) * w) (drop (i0 * w) d) @ take w (drop (i1 * w) d)"
      using le Suc.IH[OF le len] by simp
    also have "\<dots> = take ((i1 - i0) * w + w) (drop (i0 * w) d)"
    proof -
      have "(i1 - i0) * w + i0 * w = i1 * w" using eq by simp
      then show ?thesis by (simp only: take_add drop_drop)
    qed
    also have "(i1 - i0) * w + w = (Suc i1 - i0) * w"
      using le by (simp add: Suc_diff_le)
    finally show ?thesis .
  qed
qed

lemma slice_axes_one:
  assumes "i0 \<le> i1" "i1 \<le> m" "length d = m * prod_list t"
  shows "slice_axes (Suc 0) (i0, i1) (Array (m # t) d)
       = Inr (Array ((i1 - i0) # t) (take ((i1 - i0) * prod_list t) (drop (i0 * prod_list t) d)))"
proof -
  have "i1 * prod_list t \<le> length d" using assms by simp
  from concat_chunks[OF assms(1) this] assms show ?thesis
    by (simp add: slice_axes_def min_absorb1)
qed

lemma sum_lengths:
  assumes "\<forall>ks\<in>set fa. length (g ks) = f ks * (w::nat)"
  shows "length (concat (map g fa)) = sum_list (map f fa) * w"
  using assms by (induction fa) (simp_all add: add_mult_distrib)

lemma slices_blocks:
  assumes "\<forall>ks\<in>set fa. length (g ks) = prod_list (snd ks) * prod_list t"
    and "length pre = a * prod_list t"
    and "a + sum_list (map (\<lambda>ks. prod_list (snd ks)) fa) = N"
  shows "map (\<lambda>ind. slice_axes (Suc 0) ind (Array (N # t) (pre @ concat (map g fa))))
           (inds_from a (map (\<lambda>ks. prod_list (snd ks)) fa))
       = map (\<lambda>ks. Inr (Array (prod_list (snd ks) # t) (g ks))) fa"
  using assms
proof (induction fa arbitrary: pre a)
  case Nil
  then show ?case by simp
next
  case (Cons ks fa)
  let ?w = "prod_list t"
  let ?n = "prod_list (snd ks)"
  let ?d = "pre @ concat (map g (ks # fa))"
  have lg: "length (g ks) = ?n * ?w" using Cons.prems(1) by simp
  have rest: "\<forall>ks\<in>set fa. length (g ks) = prod_list (snd ks) * ?w" using Cons.prems(1) by simp
  have len: "length ?d = N * ?w"
  proof -
    have "N = a + (?n + sum_list (map (\<lambda>ks. prod_list (snd ks)) fa))"
      using Cons.prems(3) by simp
    then show ?thesis
      using Cons.prems(2) lg sum_lengths[OF rest]
      by (simp add: add_mult_distrib)
  qed
  have le: "a + ?n \<le> N" using Cons.prems(3) by simp
  have "slice_axes (Suc 0) (a, a + ?n) (Array (N # t) ?d)
      = Inr (Array (?n # t) (take (?n * ?w) (drop (a * ?w) ?d)))"
    using slice_axes_one[of a "a + ?n" N ?d t] le len by simp
  also have "take (?n * ?w) (drop (a * ?w) ?d) = g ks"
    using Cons.prems(2) lg by simp
  finally have hd: "slice_axes (Suc 0) (a, a + ?n) (Array (N # t) ?d) = Inr (Array (?n # t) (g ks))" .
  have "map (\<lambda>ind. slice_axes (Suc 0) ind (Array (N # t) ((pre @ g ks) @ concat (map g fa))))
           (inds_from (a + ?n) (map (\<lambda>ks. prod_list (snd ks)) fa))
       = map (\<lambda>ks. Inr (Array (prod_list (snd ks) # t) (g ks))) fa"
    using Cons.IH[OF rest, of "pre @ g ks" "a + ?n"] Cons.prems(2,3) lg
    by (simp add: add_mult_distrib)
  with hd show ?case by simp
qed

lemma sequence_e_Inr: "sequence_e (map (\<lambda>x. Inr (f x)) xs) = Inr (map f xs)"
  by (induction xs) simp_all

lemma unflatten_entry_block:
  assumes "length dk = prod_list s * prod_list t"
  shows "unflatten_entry (Suc 0) s (Array (prod_list s # t) dk)
       = Inr (if s = [] \<and> t = [] then Scalar (hd dk) else Array (s @ t) dk)"
proof (cases "s = [] \<and> t = []")
  case True
  with assms have "length dk = 1" by simp
  then obtain v where "dk = [v]" by (cases dk) auto
  with True show ?thesis by (simp add: unflatten_entry_def item_def)
next
  case False
  with assms show ?thesis by (auto simp: unflatten_entry_def reshape_def)
qed

lemma unflatten_blocks:
  assumes len: "\<forall>ks\<in>set fa. length (g ks) = prod_list (snd ks) * prod_list t"
    and nd: "nd = Some (Suc 0) \<or> (nd = None \<and> t = [])"
  shows "unflatten fa (Array (sum_list (map (\<lambda>ks. prod_list (snd ks)) fa) # t) (concat (map g fa))) nd
       = Inr (map (\<lambda>ks. (fst ks, if snd ks = [] \<and> t = [] then Scalar (hd (g ks))
                                   else Array (snd ks @ t) (g ks))) fa)"
proof -
  let ?N = "sum_list (map (\<lambda>ks. prod_list (snd ks)) fa)"
  let ?arr = "Array (?N # t) (concat (map g fa))"
  let ?val = "\<lambda>ks. if snd ks = [] \<and> t = [] then Scalar (hd (g ks)) else Array (snd ks @ t) (g ks)"
  have ndim: "(case nd of None \<Rightarrow> length (np_shape ?arr) | Some n \<Rightarrow> n) = Suc 0"
    using nd by auto
  have slices: "map (\<lambda>ind. slice_axes (Suc 0) ind ?arr) (inds fa)
      = map (\<lambda>ks. Inr (Array (prod_list (snd ks) # t) (g ks))) fa"
    using slices_blocks[OF len, of "[]" 0 ?N] by (simp add: inds_eq)
  have entries: "map (\<lambda>((k, s), a). unflatten_entry (Suc 0) s a)
        (zip fa (map (\<lambda>ks. Array (prod_list (snd ks) # t) (g ks)) fa))
      = map (\<lambda>ks. Inr (?val ks)) fa"
  proof -
    have "map (\<lambda>((k, s), a). unflatten_entry (Suc 0) s a)
        (zip fa (map (\<lambda>ks. Array (prod_list (snd ks) # t) (g ks)) fa))
      = map (\<lambda>ks. unflatten_entry (Suc 0) (snd ks) (Array (prod_list (snd ks) # t) (g ks))) fa"
      by (induction fa) (auto simp: case_prod_beta)
    also have "\<dots> = map (\<lambda>ks. Inr (?val ks)) fa"
      using len by (intro map_cong refl) (simp add: unflatten_entry_block)
    finally show ?thesis .
  qed
  have keys: "zip (map fst fa) (map ?val fa) = map (\<lambda>ks. (fst ks, ?val ks)) fa"
    by (induction fa) simp_all
  show ?thesis
    unfolding unflatten_def asanyarray.simps Let_def ndim slices sequence_e_Inr sum.case
      entries keys ..
qed

subsection \<open>flatten\<close>

lemma shapes_match_present:
  assumes "\<forall>ks\<in>set fa. fst ks \<in> fst ` set d"
  shows "shapes_match fa d = Inr (\<forall>ks\<in>set fa. np_shape (the (map_of d (fst ks))) = snd ks)"
  using assms
proof (induction fa)
  case Nil
  then show ?case by simp
next
  case (Cons ks fa)
  obtain k s where ks: "ks = (k, s)" by (cases ks)
  with Cons.prems have "k \<in> fst ` set d" by simp
  then obtain a where a: "map_of d k = Some a"
    by (metis map_of_eq_None_iff not_Some_eq)
  from Cons have "shapes_match fa d
      = Inr (\<forall>ks\<in>set fa. np_shape (the (map_of d (fst ks))) = snd ks)" by simp
  with ks a show ?case by (simp add: getitem_def)
qed

lemma getitem_all_present:
  assumes "\<forall>k\<in>set ks. k \<in> fst ` set d"
  shows "sequence_e (map (\<lambda>k. getitem d k) ks) = Inr (map (\<lambda>k. the (map_of d k)) ks)"
  using assms
proof (induction ks)
  case Nil
  then show ?case by simp
next
  case (Cons k ks)
  then have "k \<in> fst ` set d" by simp
  then obtain a where "map_of d k = Some a"
    by (metis map_of_eq_None_iff not_Some_eq)
  with Cons show ?case by (simp add: getitem_def)
qed

text \<open>
  Claim C8, as stated, fails on the instance with no registered key: every shape matches
  (there is none), and \<open>flatten\<close> raises \<open>ValueError\<close> instead of returning a vector.
\<close>

theorem flatten_empty_counterexample:
  "shapes_match ([]::string FlattenArrays) ([]::(string, int ndarray) dict) = Inr True
   \<and> flatten ([]::string FlattenArrays) ([]::(string, int ndarray) dict) = Inl ValueError"
  by (simp add: flatten_def np_concatenate_def)

lemma flatten_cases:
  assumes "\<forall>ks\<in>set fa. fst ks \<in> fst ` set arrays_dict"
  shows "flatten fa arrays_dict =
     (if \<exists>ks\<in>set fa. np_shape (the (map_of arrays_dict (fst ks))) \<noteq> snd ks then Inl AssertionError
      else if fa = [] then Inl ValueError
      else Inr (Array [length (concat (map (\<lambda>ks. np_ravel (the (map_of arrays_dict (fst ks)))) fa))]
                  (concat (map (\<lambda>ks. np_ravel (the (map_of arrays_dict (fst ks)))) fa))))"
proof -
  have keys: "\<forall>k\<in>set (map fst fa). k \<in> fst ` set arrays_dict" using assms by simp
  show ?thesis
  proof (cases "\<forall>ks\<in>set fa. np_shape (the (map_of arrays_dict (fst ks))) = snd ks")
    case True
    then have "shapes_match fa arrays_dict = Inr True"
      using shapes_match_present[OF assms] by simp
    with True show ?thesis
      unfolding flatten_def getitem_all_present[OF keys]
      by (simp add: np_concatenate_def comp_def)
  next
    case False
    then have "shapes_match fa arrays_dict = Inr False"
      using shapes_match_present[OF assms] by simp
    with False show ?thesis
      by (simp add: flatten_def)
  qed
qed

text \<open>
  Claim C8, amended. When the mapping supplies every registered key, \<open>flatten\<close> raises
  \<open>AssertionError\<close>, before any concatenation, exactly when some supplied array's shape
  differs from the registered shape (shapes are compared for equality, nothing is
  broadcast); when all shapes match and at least one key is registered it returns the 1-D
  concatenation of the ravelled arrays in registration order; with no registered key the
  concatenation itself raises \<open>ValueError\<close>.
\<close>

theorem flatten_result:
  assumes "\<forall>ks\<in>set fa. fst ks \<in> fst ` set arrays_dict"
  shows "flatten fa arrays_dict =
     (if \<exists>ks\<in>set fa. np_shape (the (map_of arrays_dict (fst ks))) \<noteq> snd ks then Inl AssertionError
      else if fa = [] then Inl ValueError
      else Inr (Array [length (concat (map (\<lambda>ks. np_ravel (the (map_of arrays_dict (fst ks)))) fa))]
                  (concat (map (\<lambda>ks. np_ravel (the (map_of arrays_dict (fst ks)))) fa))))"
  by (rule flatten_cases[OF assms])

theorem flatten_result_witness:
  "flatten ex_fa ex_x = Inr (Array [9] [0, 1, 0, 1, 4, 9, 16, 25, 5])
   \<and> flatten ex_fa [(''a'', Array [2] [0, 1]), (''b'', Array [2, 3] [0, 1, 4, 9, 16, 25]),
           (''c'', Scalar (5::int))] = Inl AssertionError"
proof -
  have h1: "\<forall>ks\<in>set ex_fa. fst ks \<in> fst ` set ex_x" by (simp add: ex_fa_def ex_x_def)
  have h2: "\<forall>ks\<in>set ex_fa. fst ks \<in> fst ` set [(''a'', Array [2] [0, 1]),
      (''b'', Array [2, 3] [0, 1, 4, 9, 16, 25]), (''c'', Scalar (5::int))]"
    by (simp add: ex_fa_def)
  show ?thesis
    unfolding flatten_result[OF h1] flatten_result[OF h2]
    by (simp add: ex_fa_def ex_x_def)
qed

subsection \<open>The round trip\<close>

lemma ravel_length:
  assumes "np_shape a = s" "wf_array a"
  shows "length (np_ravel a) = prod_list s"
  using assms by (cases a) auto

text \<open>
  Claim C4, as stated, fails for batches along the trailing axis: the flat vector of
  \<open>{a: [7], b: [8]}\<close> is \<open>[7, 8]\<close>; stacked as the single row of a \<open>(1, 2)\<close> array
  (the vector axis trailing) and unflattened with \<open>ndim=1\<close> it raises \<open>ValueError\<close>, and
  unflattening the flat vector itself with \<open>ndim=2\<close> raises \<open>IndexError\<close>.
\<close>

theorem unflatten_trailing_axis_counterexample:
  "flatten [(''a'', [1]), (''b'', [1])] [(''a'', Array [1] [7::int]), (''b'', Array [1] [8])]
     = Inr (Array [2] [7, 8])
   \<and> unflatten [(''a'', [1]), (''b'', [1])] (Array [1, 2] [7, 8::int]) (Some 1) = Inl ValueError
   \<and> unflatten [(''a'', [1]), (''b'', [1])] (Array [2] [7, 8::int]) (Some 2) = Inl IndexError"
  by (simp add: flatten_def getitem_def np_concatenate_def unflatten_def inds_def splits_def
      slice_axes_def unflatten_entry_def reshape_def numeral_2_eq_2)

text \<open>
  Claim C4, amended. For registered shapes with at least one key and a mapping \<open>x\<close> of
  well-formed arrays of exactly those shapes, \<open>unflatten(flatten(x))\<close> with the default
  \<open>ndim\<close> gives back, key by key in registration order, the array of \<open>x\<close>, and a plain
  scalar for a key whose registered shape is empty. Batched unflatten slices the leading
  axis: for an array of shape \<open>(N,) + t\<close> whose blocks along the leading axis are the
  per-key data of shape \<open>shape + t\<close>, \<open>unflatten(arr, ndim=1)\<close> returns each block as an
  array of shape \<open>shape + t\<close> (an array also for a scalar key when \<open>t\<close> is not empty).
\<close>

theorem unflatten_flatten_roundtrip:
  assumes keys: "\<forall>ks\<in>set fa. fst ks \<in> fst ` set x"
    and shapes: "\<forall>ks\<in>set fa. np_shape (the (map_of x (fst ks))) = snd ks"
    and wf: "\<forall>ks\<in>set fa. wf_array (the (map_of x (fst ks)))"
    and nonempty: "fa \<noteq> []"
    and blocks: "\<forall>ks\<in>set fa. length (g ks) = prod_list (snd ks) * prod_list t"
    and batched: "t \<noteq> []"
  shows "(case flatten fa x of Inl e \<Rightarrow> Inl e | Inr v \<Rightarrow> unflatten fa v None)
       = Inr (map (\<lambda>ks. (fst ks, if snd ks = [] then Scalar (hd (np_ravel (the (map_of x (fst ks)))))
                                   else the (map_of x (fst ks)))) fa)
     \<and> unflatten fa (Array (sum_list (map (\<lambda>ks. prod_list (snd ks)) fa) # t) (concat (map g fa)))
          (Some 1)
       = Inr (map (\<lambda>ks. (fst ks, Array (snd ks @ t) (g ks))) fa)"
proof
  let ?r = "\<lambda>ks. np_ravel (the (map_of x (fst ks)))"
  have len: "\<forall>ks\<in>set fa. length (?r ks) = prod_list (snd ks) * prod_list []"
    using shapes wf by (simp add: ravel_length)
  have total: "length (concat (map ?r fa)) = sum_list (map (\<lambda>ks. prod_list (snd ks)) fa)"
    using sum_lengths[OF len] by simp
  have fl: "flatten fa x = Inr (Array [sum_list (map (\<lambda>ks. prod_list (snd ks)) fa)] (concat (map ?r fa)))"
    using flatten_cases[OF keys] shapes nonempty total by simp
  have "unflatten fa (Array [sum_list (map (\<lambda>ks. prod_list (snd ks)) fa)] (concat (map ?r fa))) None
      = Inr (map (\<lambda>ks. (fst ks, if snd ks = [] \<and> [] = ([]::nat list) then Scalar (hd (?r ks))
                                   else Array (snd ks @ []) (?r ks))) fa)"
    by (rule unflatten_blocks[OF len]) simp
  also have "map (\<lambda>ks. (fst ks, if snd ks = [] \<and> [] = ([]::nat list) then Scalar (hd (?r ks))
                                   else Array (snd ks @ []) (?r ks))) fa
      = map (\<lambda>ks. (fst ks, if snd ks = [] then Scalar (hd (?r ks))
                                   else the (map_of x (fst ks)))) fa"
  proof (intro map_cong refl)
    fix ks assume "ks \<in> set fa"
    with shapes have sh: "np_shape (the (map_of x (fst ks))) = snd ks" by simp
    show "(fst ks, if snd ks = [] \<and> [] = ([]::nat list) then Scalar (hd (?r ks))
                                   else Array (snd ks @ []) (?r ks))
        = (fst ks, if snd ks = [] then Scalar (hd (?r ks)) else the (map_of x (fst ks)))"
      using sh by (cases "the (map_of x (fst ks))") auto
  qed
  finally show "(case flatten fa x of Inl e \<Rightarrow> Inl e | Inr v \<Rightarrow> unflatten fa v None)
       = Inr (map (\<lambda>ks. (fst ks, if snd ks = [] then Scalar (hd (?r ks))
                                   else the (map_of x (fst ks)))) fa)"
    by (simp add: fl)
next
  have "unflatten fa (Array (sum_list (map (\<lambda>ks. prod_list (snd ks)) fa) # t) (concat (map g fa)))
          (Some (Suc 0))
       = Inr (map (\<lambda>ks. (fst ks, if snd ks = [] \<and> t = [] then Scalar (hd (g ks))
                                   else Array (snd ks @ t) (g ks))) fa)"
    by (rule unflatten_blocks[OF blocks]) simp
  with batched show "unflatten fa (Array (sum_list (map (\<lambda>ks. prod_list (snd ks)) fa) # t) (concat (map g fa)))
          (Some 1)
       = Inr (map (\<lambda>ks. (fst ks, Array (snd ks @ t) (g ks))) fa)"
    by simp
qed

theorem unflatten_flatten_roundtrip_witness:
  "(case flatten ex_fa ex_x of Inl e \<Rightarrow> Inl e | Inr v \<Rightarrow> unflatten ex_fa v None)
     = Inr [(''a'', Array [1, 2] [0, 1]), (''b'', Array [2, 3] [0, 1, 4, 9, 16, 25]),
            (''c'', Scalar 5)]
   \<and> unflatten ex_fa
        (Array [9, 2] [0, 10, 1, 11, 0, 10, 1, 11, 4, 14, 9, 19, 16, 26, 25, 35, 5, 15::int])
        (Some 1)
     = Inr [(''a'', Array [1, 2, 2] [0, 10, 1, 11]),
            (''b'', Array [2, 3, 2] [0, 10, 1, 11, 4, 14, 9, 19, 16, 26, 25, 35]),
            (''c'', Array [2] [5, 15])]"
proof -
  have h1: "\<forall>ks\<in>set ex_fa. fst ks \<in> fst ` set ex_x" by (simp add: ex_fa_def ex_x_def)
  have h2: "\<forall>ks\<in>set ex_fa. np_shape (the (map_of ex_x (fst ks))) = snd ks"
    by (simp add: ex_fa_def ex_x_def)
  have h3: "\<forall>ks\<in>set ex_fa. wf_array (the (map_of ex_x (fst ks)))"
    by (simp add: ex_fa_def ex_x_def)
  have h4: "ex_fa \<noteq> []" by (simp add: ex_fa_def)
  have h5: "\<forall>ks\<in>set ex_fa. length (ex_blocks ks) = prod_list (snd ks) * prod_list [2]"
    by (simp add: ex_fa_def ex_blocks_def)
  have h6: "[2::nat] \<noteq> []" by simp
  note r = unflatten_flatten_roundtrip[OF h1 h2 h3 h4 h5 h6]
  have e1: "map (\<lambda>ks. (fst ks, if snd ks = [] then Scalar (hd (np_ravel (the (map_of ex_x (fst ks)))))
                                   else the (map_of ex_x (fst ks)))) ex_fa
      = [(''a'', Array [1, 2] [0, 1]), (''b'', Array [2, 3] [0, 1, 4, 9, 16, 25]), (''c'', Scalar 5)]"
    by (simp add: ex_fa_def ex_x_def)
  have e2: "map (\<lambda>ks. (fst ks, Array (snd ks @ [2]) (ex_blocks ks))) ex_fa
      = [(''a'', Array [1, 2, 2] [0, 10, 1, 11]),
            (''b'', Array [2, 3, 2] [0, 10, 1, 11, 4, 14, 9, 19, 16, 26, 25, 35]),
            (''c'', Array [2] [5, 15])]"
    by (simp add: ex_fa_def ex_blocks_def)
  have e3: "Array (sum_list (map (\<lambda>ks. prod_list (snd ks)) ex_fa) # [2]) (concat (map ex_blocks ex_fa))
      = Array [9, 2] [0, 10, 1, 11, 0, 10, 1, 11, 4, 14, 9, 19, 16, 26, 25, 35, 5, 15]"
    by (simp add: ex_fa_def ex_blocks_def)
  from r show ?thesis unfolding e1 e2 e3 .
qed

subsection \<open>Uncertainty propagation\<close>

lemma length_table: "length (table n p g) = n * p"
  by (induction n) (simp_all add: table_def)

lemma nth_table: "i < n \<Longrightarrow> j < p \<Longrightarrow> table n p g ! (i * p + j) = g i j"
proof (induction n)
  case 0
  then show ?case by simp
next
  case (Suc n)
  have split: "table (Suc n) p g = table n p g @ map (g n) [0..<p]"
    by (simp add: table_def)
  show ?case
  proof (cases "i < n")
    case True
    have "i * p + j < Suc i * p" using Suc.prems(2) by simp
    also have "\<dots> \<le> n * p" using True by (intro mult_le_mono1) simp
    finally have "i * p + j < n * p" .
    with True Suc show ?thesis by (simp add: split nth_append length_table)
  next
    case False
    with Suc.prems have "i = n" by simp
    with Suc.prems show ?thesis by (simp add: split nth_append length_table)
  qed
qed

lemma table_eqI:
  assumes "length d = n * p" and "\<And>i j. i < n \<Longrightarrow> j < p \<Longrightarrow> d ! (i * p + j) = g i j"
  shows "table n p g = d"
proof (rule nth_equalityI)
  show "length (table n p g) = length d" by (simp add: length_table assms(1))
next
  fix k assume "k < length (table n p g)"
  then have k: "k < n * p" by (simp add: length_table)
  then have p: "0 < p" by (cases p) auto
  have i: "k div p < n" using k by (simp add: less_mult_imp_div_less)
  have j: "k mod p < p" using p by simp
  have "table n p g ! (k div p * p + k mod p) = g (k div p) (k mod p)"
    by (rule nth_table[OF i j])
  also have "\<dots> = d ! (k div p * p + k mod p)" using assms(2)[OF i j] by simp
  finally show "table n p g ! k = d ! k" by simp
qed

lemma sum_list_delta_left:
  "i < n \<Longrightarrow> sum_list (map (\<lambda>k. (if i = k then 1 else 0) * f k) [0..<n]) = (f i :: real)"
proof -
  assume "i < n"
  have "sum_list (map (\<lambda>k. (if i = k then 1 else 0) * f k) [0..<n])
      = (\<Sum>k = 0..<n. (if i = k then 1 else 0) * f k)"
    by (simp add: interv_sum_list_conv_sum_set_nat)
  also have "\<dots> = (\<Sum>k = 0..<n. if k = i then f k else 0)"
    by (intro sum.cong) auto
  also have "\<dots> = f i" using \<open>i < n\<close> by simp
  finally show ?thesis .
qed

lemma sum_list_delta_right:
  "j < n \<Longrightarrow> sum_list (map (\<lambda>k. f k * (if k = j then 1 else 0)) [0..<n]) = (f j :: real)"
proof -
  assume "j < n"
  have "sum_list (map (\<lambda>k. f k * (if k = j then 1 else 0)) [0..<n])
      = (\<Sum>k = 0..<n. f k * (if k = j then 1 else 0))"
    by (simp add: interv_sum_list_conv_sum_set_nat)
  also have "\<dots> = (\<Sum>k = 0..<n. if k = j then f k else 0)"
    by (intro sum.cong) auto
  also have "\<dots> = f j" using \<open>j < n\<close> by simp
  finally show ?thesis .
qed

lemma transpose_eye:
  "transpose2d n n (table n n (\<lambda>i j. if i = j then 1 else (0::real)))
     = table n n (\<lambda>i j. if i = j then 1 else 0)"
  unfolding transpose2d_def
  by (rule table_eqI) (auto simp: length_table nth_table)

lemma dot_eye_right:
  assumes "length c = n * n"
  shows "dot n n n c (table n n (\<lambda>i j. if i = j then 1 else 0)) = c"
  unfolding dot_def
proof (rule table_eqI[OF assms])
  fix i j assume ij: "i < n" "j < n"
  have "sum_list (map (\<lambda>k. c ! (i * n + k) * table n n (\<lambda>i j. if i = j then 1 else 0) ! (k * n + j)) [0..<n])
      = sum_list (map (\<lambda>k. c ! (i * n + k) * (if k = j then 1 else 0)) [0..<n])"
    using ij by (intro arg_cong[where f=sum_list] map_cong refl) (simp add: nth_table)
  also have "\<dots> = c ! (i * n + j)" by (rule sum_list_delta_right[OF ij(2)])
  finally show "c ! (i * n + j)
      = sum_list (map (\<lambda>k. c ! (i * n + k) * table n n (\<lambda>i j. if i = j then 1 else 0) ! (k * n + j)) [0..<n])"
    by simp
qed

lemma dot_eye_left:
  assumes "length c = n * n"
  shows "dot n n n (table n n (\<lambda>i j. if i = j then 1 else 0)) c = c"
  unfolding dot_def
proof (rule table_eqI[OF assms])
  fix i j assume ij: "i < n" "j < n"
  have "sum_list (map (\<lambda>k. table n n (\<lambda>i j. if i = j then 1 else 0) ! (i * n + k) * c ! (k * n + j)) [0..<n])
      = sum_list (map (\<lambda>k. (if i = k then 1 else 0) * c ! (k * n + j)) [0..<n])"
    using ij by (intro arg_cong[where f=sum_list] map_cong refl) (simp add: nth_table)
  also have "\<dots> = c ! (i * n + j)" by (rule sum_list_delta_left[OF ij(1)])
  finally show "c ! (i * n + j)
      = sum_list (map (\<lambda>k. table n n (\<lambda>i j. if i = j then 1 else 0) ! (i * n + k) * c ! (k * n + j)) [0..<n])"
    by simp
qed

lemma propagate_identity:
  assumes "length c = n * n"
  shows "propagate_uncertainty (Array [n, n] c) (np_eye n) = Inr (Array [n, n] c)"
  using assms
  by (simp add: propagate_uncertainty_def np_eye_def py_upto_def py_from_def reshape_def
      length_table multi_dot3_def transpose_eye dot_eye_left dot_eye_right Let_def)


lemma propagate_assertion:
  assumes cs: "cs = np_shape (asanyarray cov)" and k: "k = length cs div 2"
  shows "propagate_uncertainty cov (Array js jd) = Inl AssertionError
     \<longleftrightarrow> \<not> (k \<le> length js \<and> drop (length js - k) js = take k cs
              \<and> drop (length js - k) js = drop k cs)"
proof (cases "k \<le> length js")
  case True
  then have "py_from (int (length js) - int k) js = drop (length js - k) js"
    by (simp add: py_from_def nat_diff_distrib')
  then show ?thesis
    using True cs k
    by (auto simp: propagate_uncertainty_def Let_def reshape_def split: sum.splits)
next
  case False
  have "length (py_from (int (length js) - int k) js) \<le> length js"
    by (simp add: py_from_def)
  moreover have "length (take k cs) = k" using k by simp
  ultimately have "py_from (int (length js) - int k) js \<noteq> take k cs"
    using False by auto
  then show ?thesis
    using False cs k by (simp add: propagate_uncertainty_def Let_def)
qed

text \<open>
  Claim C9. For an \<open>n\<close> by \<open>n\<close> covariance matrix and the identity Jacobian,
  \<open>propagate_uncertainty(cov, I)\<close> is \<open>cov\<close>; and with \<open>k\<close> half the rank of the
  covariance, the call fails with \<open>AssertionError\<close> exactly when the trailing \<open>k\<close> axes
  of the Jacobian are not equal to both halves of the covariance's shape (also when the
  Jacobian has fewer than \<open>k\<close> axes).
\<close>

theorem propagate_uncertainty_identity_and_assertion:
  assumes "cs = np_shape (asanyarray cov)" and "k = length cs div 2"
  shows "(length c = n * n \<longrightarrow>
            propagate_uncertainty (Array [n, n] c) (np_eye n) = Inr (Array [n, n] c))
       \<and> (propagate_uncertainty cov (Array js jd) = Inl AssertionError
            \<longleftrightarrow> \<not> (k \<le> length js \<and> drop (length js - k) js = take k cs
                     \<and> drop (length js - k) js = drop k cs))"
  using propagate_identity propagate_assertion[OF assms] by blast

theorem propagate_uncertainty_identity_and_assertion_witness:
  "propagate_uncertainty (Array [2, 2] [1, 2, 3, 4]) (np_eye 2) = Inr (Array [2, 2] [1, 2, 3, 4])
   \<and> propagate_uncertainty (Array [2, 2] [1, 2, 3, 4]) (Array [3] [1, 1, 1]) = Inl AssertionError"
proof -
  have h1: "[2, 2] = np_shape (asanyarray (Array [2, 2] [1, 2, 3, 4::real]))" by simp
  have h2: "(1::nat) = length [2::nat, 2] div 2" by simp
  note t = propagate_uncertainty_identity_and_assertion[OF h1 h2,
      of "[1, 2, 3, 4]" 2 "[3]" "[1, 1, 1]"]
  from t show ?thesis by simp
qed

subsection \<open>find_factor_mode\<close>

lemma update_det_cov_raises: "update_det_cov res jacobian = Inl AttributeError"
  by (simp add: update_det_cov_def OptResult_getattr_def)

lemma find_factor_mode_raises:
  "\<exists>e. snd (snd (find_factor_mode sample minimize factor_approx factor jacobian fa True
                       status0 kwargs arrays_dict bounds0 extra g)) = Inl e"
  by (auto simp: find_factor_mode_def update_det_cov_raises Let_def
      split: sum.splits prod.splits pyobj.splits)

text \<open>
  Claim C3. \<open>update_det_cov\<close> reads \<open>res.inv_hessian\<close>, which is not a field of
  \<open>OptResult\<close> (the covariance map is the field \<open>hess_inv\<close>): it raises
  \<open>AttributeError\<close> for every result and every Jacobian, before any covariance is
  propagated, and so every call of \<open>find_factor_mode\<close> with \<open>return_cov=True\<close> ends
  in an exception instead of returning the accumulated covariance.
\<close>

theorem find_factor_mode_return_cov_raises:
  "update_det_cov res jac = Inl AttributeError
   \<and> (\<exists>e. snd (snd (find_factor_mode sample minimize factor_approx factor jacobian fa True
                       status0 kwargs arrays_dict bounds0 extra g)) = Inl e)"
  by (rule conjI[OF update_det_cov_raises find_factor_mode_raises])

subsection \<open>invpsilog\<close>

lemma newton_step_elementwise:
  assumes "length x0 = length c"
  shows "newton_step digamma trigamma c x0
       = map2 (\<lambda>x ci. x - ((digamma x - ln x) - ci) / (trigamma x - 1 / x)) x0 c"
  using assms
proof (induction x0 arbitrary: c)
  case Nil
  then show ?case by (simp add: newton_step_def)
next
  case (Cons x xs)
  then obtain ci cs where c: "c = ci # cs" by (cases c) auto
  with Cons.prems have "length xs = length cs" by simp
  from Cons.IH[OF this] c show ?case
    by (simp add: newton_step_def psilog_def grad_psilog_def Let_def)
qed

lemma length_newton_step:
  "length x0 = length c \<Longrightarrow> length (newton_step digamma trigamma c x0) = length c"
  by (simp add: newton_step_elementwise)

lemma map2_funpow:
  "length xs = length cs \<Longrightarrow>
   map2 (\<lambda>x ci. (s ci ^^ n) x) (map2 (\<lambda>x ci. s ci x) xs cs) cs
     = map2 (\<lambda>x ci. (s ci ^^ Suc n) x) xs cs"
  by (induction xs cs rule: list_induct2) (simp_all add: funpow_swap1)

lemma for_range_newton_elementwise:
  assumes "length x0 = length c"
  shows "for_range n (newton_step digamma trigamma c) x0
       = map2 (\<lambda>x ci. ((\<lambda>y. y - ((digamma y - ln y) - ci) / (trigamma y - 1 / y)) ^^ n) x) x0 c"
  using assms
proof (induction n arbitrary: x0)
  case 0
  then have "map2 (\<lambda>x ci. x) x0 c = x0"
    by (induction x0 c rule: list_induct2) simp_all
  then show ?case by simp
next
  case (Suc n)
  let ?s = "\<lambda>ci y. y - ((digamma y - ln y) - ci) / (trigamma y - 1 / y)"
  have len: "length (newton_step digamma trigamma c x0) = length c"
    using Suc.prems by (rule length_newton_step)
  have "for_range (Suc n) (newton_step digamma trigamma c) x0
      = map2 (\<lambda>x ci. (?s ci ^^ n) x) (newton_step digamma trigamma c x0) c"
    using Suc.IH[OF len] by simp
  also have "\<dots> = map2 (\<lambda>x ci. (?s ci ^^ n) x) (map2 (\<lambda>x ci. ?s ci x) x0 c) c"
    using Suc.prems by (simp add: newton_step_elementwise)
  also have "\<dots> = map2 (\<lambda>x ci. (?s ci ^^ Suc n) x) x0 c"
    using Suc.prems by (rule map2_funpow)
  finally show ?case .
qed


lemma map2_map_left: "map2 f (map g cs) cs = map (\<lambda>ci. f (g ci) ci) cs"
  by (induction cs) simp_all

text \<open>
  Claim C7. \<open>invpsilog(c)\<close> raises \<open>ValueError\<close> if and only if some element of
  \<open>c\<close> is non-negative. When every element is negative it returns, in the shape of
  \<open>c\<close>, for each element \<open>ci\<close> the starting guess
  \<open>-(1 - 0.5 (1 + A (-ci)^beta)^(-gamma)) / ci\<close> refined by exactly four applications of
  the Newton-Raphson map \<open>x - (psi(x) - log(x) - ci) / (psi'(x) - 1/x)\<close>, whatever the
  iterates are: no test of convergence shortens or extends the loop.
\<close>

theorem invpsilog_raises_iff_and_four_newton_steps:
  "(invpsilog digamma trigamma c = Inl ValueError
      \<longleftrightarrow> (\<exists>v\<in>set (np_ravel (asanyarray c)). 0 \<le> v))
   \<and> ((\<forall>v\<in>set (np_ravel (asanyarray c)). v < 0) \<longrightarrow>
        invpsilog digamma trigamma c
          = Inr (Array (np_shape (asanyarray c))
                   (map (\<lambda>ci. ((\<lambda>x. x - ((digamma x - ln x) - ci) / (trigamma x - 1 / x)) ^^ 4)
                               (- (1 - (1 / 2) * (1 + (38648347 / 100000000)
                                      * (- ci) powr (89486989 / 100000000))
                                        powr (- (78578843 / 100000000))) / ci))
                        (np_ravel (asanyarray c)))))"
proof -
  let ?cs = "np_ravel (asanyarray c)"
  have loop: "for_range 4 (newton_step digamma trigamma ?cs) (map initial_guess ?cs)
      = map (\<lambda>ci. ((\<lambda>x. x - ((digamma x - ln x) - ci) / (trigamma x - 1 / x)) ^^ 4)
                     (initial_guess ci)) ?cs"
    by (simp only: for_range_newton_elementwise[of "map initial_guess ?cs" ?cs, simplified]
        map2_map_left)
  have guess: "\<And>ci. initial_guess ci
      = - (1 - (1 / 2) * (1 + (38648347 / 100000000) * (- ci) powr (89486989 / 100000000))
            powr (- (78578843 / 100000000))) / ci"
    by (simp add: initial_guess_def Let_def)
  show ?thesis
    unfolding invpsilog_def Let_def loop
    by (auto simp: list_all_iff not_less guess simp del: funpow.simps)
qed

text \<open>
  The theorem at work: with \<open>psi = log\<close> and \<open>psi' = 1/x + 1\<close> the Newton-Raphson
  map adds \<open>ci\<close>, so for \<open>c = [-1]\<close> the four steps take 4 off the starting guess;
  and an input with a zero element is refused.
\<close>

theorem invpsilog_raises_iff_and_four_newton_steps_witness:
  "invpsilog (\<lambda>x. ln x) (\<lambda>x. 1 / x + 1) (Array [2] [- 1, 0]) = Inl ValueError
   \<and> invpsilog (\<lambda>x. ln x) (\<lambda>x. 1 / x + 1) (Array [1] [- 1])
       = Inr (Array [1] [1 - (1 / 2) * (138648347 / 100000000) powr (- (78578843 / 100000000)) - 4])"
proof -
  note t1 = invpsilog_raises_iff_and_four_newton_steps
      [of "\<lambda>x. ln x" "\<lambda>x. 1 / x + 1" "Array [2] [- 1, 0]"]
  note t2 = invpsilog_raises_iff_and_four_newton_steps
      [of "\<lambda>x. ln x" "\<lambda>x. 1 / x + 1" "Array [1] [- 1]"]
  have a: "invpsilog (\<lambda>x. ln x) (\<lambda>x. 1 / x + 1) (Array [2] [- 1, 0]) = Inl ValueError"
    using t1 by simp
  have b: "invpsilog (\<lambda>x. ln x) (\<lambda>x. 1 / x + 1) (Array [1] [- 1])
       = Inr (Array [1] [1 - (1 / 2) * (138648347 / 100000000) powr (- (78578843 / 100000000)) - 4])"
    using t2 by (simp add: eval_nat_numeral)
  from a b show ?thesis ..
qed

subsection \<open>inv_beta_suffstats\<close>

lemma inv_beta_finish_unclamped:
  assumes "shp \<noteq> []" "prod_list shp = length ab"
  shows "snd (inv_beta_finish ab shp) = Inr (Array shp (map fst ab), Array shp (map snd ab))"
  using assms by (simp add: inv_beta_finish_def reshape_def Let_def)

lemma inv_beta_suffstats_unclamped:
  assumes "for_range_e 5 (beta_newton_step digamma trigamma (zip xs ys)) (beta_start (zip xs ys))
            = Inr ab"
    and "length xs = length ys" and "length ab = length xs"
  shows "snd (inv_beta_suffstats digamma trigamma (Array [length xs] xs) (Array [length ys] ys))
           = Inr (Array [length xs] (map fst ab), Array [length xs] (map snd ab))"
  using assms by (simp add: inv_beta_suffstats_def np_c_def inv_beta_finish_unclamped)

text \<open>
  Claim C6. When the Newton-Raphson loop ends with the row \<open>(-1, 2)\<close>, the warning is
  issued and nothing is raised, but the values returned are \<open>a = -1\<close> and \<open>b = 2\<close>:
  the clipped array assigned to \<open>b\<close> is overwritten by the second column of the
  unclipped \<open>ab\<close>, and \<open>a\<close> is the first column of the unclipped \<open>ab\<close>.
\<close>

theorem inv_beta_finish_negative_unclamped:
  "inv_beta_finish [(- 1, 2)] [1]
     = ([RuntimeWarning
           ''invalid negative parameters found for inv_beta_suffstats, clampling value to 0.5''],
        Inr (Array [1] [- 1], Array [1] [2]))"
  by (simp add: inv_beta_finish_def reshape_def Let_def)

subsection \<open>The sweeps of run\<close>

lemma laplace_factor_approx_raises:
  "\<exists>e. fst (laplace_factor_approx mf model_approx factor d st kws g) = Inl e"
proof (cases "factor_approximation mf model_approx factor")
  case (Inl e)
  then show ?thesis by (simp add: laplace_factor_approx_def)
next
  case (Inr fa)
  let ?r = "find_factor_mode (fa_sample mf fa) (scipy_minimize mf)
                  (fa_call mf fa) (fa_factor mf fa)
                  (fa_jacobian mf fa) (fa_view mf fa)
                  True None (case kws of None \<Rightarrow> [] | Some kws \<Rightarrow> kws) [] None (default_kwargs mf) g"
  have "\<exists>e. snd (snd ?r) = Inl e" by (rule find_factor_mode_raises)
  then obtain e where "snd (snd ?r) = Inl e" by (elim exE)
  then obtain ad g' where "?r = (ad, g', Inl e)" by (metis prod.collapse)
  with Inr show ?thesis by (simp add: laplace_factor_approx_def)
qed

lemma step_from_raises:
  assumes "\<And>a f g. \<exists>e. fst (update a f g) = Inl e"
  shows "factors \<noteq> [] \<Longrightarrow> \<exists>e g'. step_from update a factors g = (([], Some e), g')"
proof (cases factors)
  case Nil
  assume "factors \<noteq> []"
  with Nil show ?thesis by simp
next
  case (Cons f fs)
  obtain e where "fst (update a f g) = Inl e" using assms by blast
  then obtain g' where "update a f g = (Inl e, g')" by (metis prod.collapse)
  with Cons show ?thesis by simp
qed

lemma sweeps_no_yield:
  assumes "\<And>g. \<exists>g'. one_sweep g = (([], None), g')"
  shows "\<exists>g'. sweeps one_sweep ns st g = ((st, None), g')"
proof (induction ns arbitrary: g)
  case Nil
  then show ?case by simp
next
  case (Cons i ns)
  obtain g1 where "one_sweep g = (([], None), g1)" using assms by blast
  with Cons[of g1] show ?case by simp
qed

lemma run_raises:
  "\<exists>e. fst (snd (run mf self model_approx factors g)) = Inl e"
proof -
  let ?fs = "case factors of None \<Rightarrow> graph_factors mf model_approx | Some fs \<Rightarrow> fs"
  let ?upd = "\<lambda>a factor. laplace_factor_approx mf a factor (delta self) (Some (opt_kws self)) None"
  have step_eq: "step mf self model_approx factors = step_from ?upd model_approx ?fs"
    by (rule ext) (simp add: step_def)
  show ?thesis
  proof (cases "n_iter self = 0 \<or> ?fs = []")
    case True
    have "\<exists>g'. sweeps (step mf self model_approx factors) [0..<n_iter self] (history self, None) g
        = (((history self, None), None), g')"
    proof (cases "n_iter self = 0")
      case True
      then show ?thesis by simp
    next
      case False
      with True have "?fs = []" by simp
      then have "\<And>g. \<exists>g'. step mf self model_approx factors g = (([], None), g')"
        by (simp add: step_eq)
      then show ?thesis by (rule sweeps_no_yield)
    qed
    then show ?thesis by (auto simp: run_def finish_run_def)
  next
    case False
    then obtain m where n: "n_iter self = Suc m" by (cases "n_iter self") auto
    have "\<And>a f g. \<exists>e. fst (?upd a f g) = Inl e"
      by (rule laplace_factor_approx_raises)
    from step_from_raises[of ?upd, OF this] False
    obtain e g' where "step_from ?upd model_approx ?fs g = (([], Some e), g')" by blast
    then have "sweeps (step mf self model_approx factors) [0..<n_iter self] (history self, None) g
        = (((history self, None), Some e), g')"
      by (simp add: n upt_rec step_eq)
    then show ?thesis by (auto simp: run_def finish_run_def)
  qed
qed

lemma record_yields_last:
  "ys \<noteq> [] \<Longrightarrow> snd (record_yields i ys st) = Some (snd (last ys))"
proof (induction ys arbitrary: st)
  case Nil
  then show ?case by simp
next
  case (Cons y ys)
  obtain f a where y: "y = (f, a)" by (cases y)
  obtain h c where st: "st = (h, c)" by (cases st)
  show ?case
  proof (cases "ys = []")
    case True
    with y st show ?thesis by simp
  next
    case False
    with Cons.IH[of "(setitem h (i, f) a, Some a)"] y st show ?thesis by simp
  qed
qed

text \<open>
  Claim C1. First, \<open>run\<close> never returns an approximation: every factor update goes
  through \<open>find_factor_mode\<close> with \<open>return_cov=True\<close>, which raises, and without
  any update the local \<open>new_approx\<close> is unbound. Second, with an update that does return
  (the approximation counting the updates applied to it), two sweeps over one factor
  leave count 1 in both history entries and return count 1: the second sweep starts again
  from the approximation given to \<open>run\<close>, where a sweep building on the preceding one
  would give count 2.
\<close>

theorem run_never_returns_and_sweeps_restart:
  "(\<exists>e. fst (snd (run mf self model_approx factors g)) = Inl e)
   \<and> finish_run \<lparr>history = [], n_iter = 2, delta = 1, opt_kws = []\<rparr>
        (sweeps (step_from ex_update 0 [''f'']) [0..<2] ([], None) ())
      = (\<lparr>history = [((0, ''f''), 1), ((1, ''f''), 1)], n_iter = 2, delta = 1,
           opt_kws = ([]::(string, shape) dict)\<rparr>, Inr 1, ())"
proof
  show "\<exists>e. fst (snd (run mf self model_approx factors g)) = Inl e" by (rule run_raises)
next
  show "finish_run \<lparr>history = [], n_iter = 2, delta = 1, opt_kws = []\<rparr>
        (sweeps (step_from ex_update 0 [''f'']) [0..<2] ([], None) ())
      = (\<lparr>history = [((0, ''f''), 1), ((1, ''f''), 1)], n_iter = 2, delta = 1,
           opt_kws = ([]::(string, shape) dict)\<rparr>, Inr 1, ())"
    by (simp add: finish_run_def ex_update_def upt_rec numeral_2_eq_2)
qed

end
